theory Spec2Isabelle
  imports Complex_Main
begin

section \<open>Rendering integers in template literals\<close>

text \<open>
  A template literal renders an integer-valued number in decimal, with a leading minus
  sign when negative.
\<close>

definition digit_char :: "nat \<Rightarrow> char" where
  "digit_char d = ''0123456789'' ! d"

fun show_nat :: "nat \<Rightarrow> string" where
  "show_nat n =
     (if n < 10 then [digit_char n] else show_nat (n div 10) @ [digit_char (n mod 10)])"

declare show_nat.simps [simp del]

definition show_int :: "int \<Rightarrow> string" where
  "show_int i = (if i < 0 then CHR ''-'' # show_nat (nat (- i)) else show_nat (nat i))"

section \<open>Key derivation (services/mockApi.ts)\<close>

text \<open>
  \<^verbatim>\<open>generateIdempotencyKey(email, timestamp)\<close>: on an integer timestamp,
  \<^verbatim>\<open>Math.floor(timestamp / 1000)\<close> is the floor division \<open>timestamp div 1000\<close>.
\<close>

definition generateIdempotencyKey :: "string \<Rightarrow> int \<Rightarrow> string" where
  "generateIdempotencyKey email timestamp =
     (let roundedTimestamp = (timestamp div 1000) * 1000
      in email @ '':'' @ show_int roundedTimestamp)"

section \<open>Data model (types/index.ts)\<close>

text \<open>
  The status of a submission is the string union
  \<^verbatim>\<open>"pending" | "success" | "error" | "retry"\<close>.
\<close>

datatype Status = Pending | Success | Error | Retry

text \<open>
  \<^verbatim>\<open>FormData\<close> is \<^verbatim>\<open>{email: string, amount: number}\<close>. No arithmetic is done on the
  amount in the hook or the mock service: the amount is only copied and rendered into a
  string. The type of amounts is therefore left as a parameter \<open>'n\<close>, and the rendering
  of an amount (JavaScript's number-to-string conversion in a template literal) is a
  parameter \<open>toStr\<close> of the one function that uses it.
\<close>

record 'n FormData =
  email :: string
  amount :: 'n

text \<open>
  \<^verbatim>\<open>Submission extends FormData\<close>. The field \<^verbatim>\<open>id\<close> is called \<open>id_str\<close> here.
  An absent optional field (\<^verbatim>\<open>errorMessage?\<close>) is \<open>None\<close>. Timestamps are the values of
  \<^verbatim>\<open>Date.now()\<close>: whole milliseconds, modelled as \<open>int\<close>.
\<close>

record 'n Submission = "'n FormData" +
  id_str :: string
  timestamp :: int
  status :: Status
  retryCount :: nat
  errorMessage :: "string option"

record 'n ApiResponse =
  success :: bool
  data :: "'n Submission option"
  error :: "string option"

text \<open>
  The rates and delays are JavaScript numbers; they are modelled as real numbers, and the
  values of \<^verbatim>\<open>Math.random()\<close> as reals too (the rounding of floating-point
  arithmetic is not modelled).
\<close>

record MockApiConfig =
  successRate :: real
  failureRate :: real
  delayedRate :: real
  minDelay :: real
  maxDelay :: real

text \<open>\<^verbatim>\<open>Partial<MockApiConfig>\<close>: every field may be absent.\<close>

record PartialMockApiConfig =
  successRate_opt :: "real option"
  failureRate_opt :: "real option"
  delayedRate_opt :: "real option"
  minDelay_opt :: "real option"
  maxDelay_opt :: "real option"

section \<open>The mock service (services/mockApi.ts)\<close>

definition DEFAULT_CONFIG :: MockApiConfig where
  "DEFAULT_CONFIG =
     \<lparr>successRate = 4 / 10, failureRate = 3 / 10, delayedRate = 3 / 10,
      minDelay = 5000, maxDelay = 10000\<rparr>"

text \<open>The default value \<^verbatim>\<open>{}\<close> of the parameter \<^verbatim>\<open>config\<close>.\<close>

definition empty_config :: PartialMockApiConfig where
  "empty_config =
     \<lparr>successRate_opt = None, failureRate_opt = None, delayedRate_opt = None,
      minDelay_opt = None, maxDelay_opt = None\<rparr>"

text \<open>\<^verbatim>\<open>const finalConfig = { ...DEFAULT_CONFIG, ...config }\<close>\<close>

definition finalConfig :: "PartialMockApiConfig \<Rightarrow> MockApiConfig" where
  "finalConfig config =
     \<lparr>successRate = (case successRate_opt config of None \<Rightarrow> successRate DEFAULT_CONFIG | Some v \<Rightarrow> v),
      failureRate = (case failureRate_opt config of None \<Rightarrow> failureRate DEFAULT_CONFIG | Some v \<Rightarrow> v),
      delayedRate = (case delayedRate_opt config of None \<Rightarrow> delayedRate DEFAULT_CONFIG | Some v \<Rightarrow> v),
      minDelay = (case minDelay_opt config of None \<Rightarrow> minDelay DEFAULT_CONFIG | Some v \<Rightarrow> v),
      maxDelay = (case maxDelay_opt config of None \<Rightarrow> maxDelay DEFAULT_CONFIG | Some v \<Rightarrow> v)\<rparr>"

text \<open>
  \<^verbatim>\<open>const idempotencyStore = new Map<string, Submission>()\<close>: a finite map from keys
  to records.
\<close>

type_synonym 'n store = "string \<rightharpoonup> 'n Submission"

text \<open>
  What one call of \<^verbatim>\<open>submitToMockApi\<close> reads from its surroundings, in the order of the
  source: the draw \<^verbatim>\<open>const random = Math.random()\<close>; the clock and the random suffix
  \<^verbatim>\<open>Math.random().toString(36).substr(2, 9)\<close> of the record's \<^verbatim>\<open>id\<close>; the clock of the
  record's \<^verbatim>\<open>timestamp\<close>; the draw of the delay.
\<close>

record api_env =
  random_draw :: real
  id_now :: int
  id_suffix :: string
  timestamp_now :: int
  delay_draw :: real

text \<open>
  \<^verbatim>\<open>submitToMockApi\<close> is an async function with one suspension point, the
  \<^verbatim>\<open>await\<close> of the artificial delay. Its first part, up to that point or up to the first
  \<^verbatim>\<open>return\<close>, runs without interruption: it either returns a response (and the store
  as it leaves it), or goes to sleep for the computed delay, holding the record it has
  built. On the failure branch the source sets the status and the message of the local
  record and then drops it: the response carries no record and nothing is stored.
\<close>

datatype 'n api_progress =
  Returned "'n ApiResponse" "'n store"
| Sleeping real "'n Submission"

definition submitToMockApi_start ::
  "'n store \<Rightarrow> 'n FormData \<Rightarrow> string \<Rightarrow> PartialMockApiConfig \<Rightarrow> api_env \<Rightarrow> 'n api_progress" where
  "submitToMockApi_start idempotencyStore formData idempotencyKey config env =
     (let fc = finalConfig config in
      case idempotencyStore idempotencyKey of
        Some cached \<Rightarrow>
          Returned
            \<lparr>success = (status cached = Success),
             data = Some cached,
             error = (if status cached = Error then errorMessage cached else None)\<rparr>
            idempotencyStore
      | None \<Rightarrow>
          (let random = random_draw env;
               isSuccess = random < successRate fc;
               isFailure = random < successRate fc + failureRate fc;
               isDelayed = \<not> isSuccess \<and> \<not> isFailure;
               submission =
                 \<lparr>email = email formData, amount = amount formData,
                  id_str = show_int (id_now env) @ ''-'' @ id_suffix env,
                  timestamp = timestamp_now env,
                  status = Pending, retryCount = 0, errorMessage = None\<rparr>
           in if isDelayed then
                Sleeping (delay_draw env * (maxDelay fc - minDelay fc) + minDelay fc) submission
              else if isFailure then
                Returned
                  \<lparr>success = False, data = None,
                   error = Some ''Service temporarily unavailable''\<rparr>
                  idempotencyStore
              else
                (let submission' = submission\<lparr>status := Success\<rparr>
                 in Returned
                      \<lparr>success = True, data = Some submission', error = None\<rparr>
                      (idempotencyStore(idempotencyKey \<mapsto> submission')))))"

text \<open>
  The second part runs when the delay has elapsed, on the store as it is then:
  \<^verbatim>\<open>submission.status = "success"; idempotencyStore.set(idempotencyKey, submission);
  return { success: true, data: submission }\<close>.
\<close>

definition submitToMockApi_resume ::
  "'n store \<Rightarrow> string \<Rightarrow> 'n Submission \<Rightarrow> 'n ApiResponse \<times> 'n store" where
  "submitToMockApi_resume idempotencyStore idempotencyKey submission =
     (let submission' = submission\<lparr>status := Success\<rparr>
      in (\<lparr>success = True, data = Some submission', error = None\<rparr>,
          idempotencyStore(idempotencyKey \<mapsto> submission')))"

text \<open>
  A call that nothing else interleaves with: the response, the store after the call, and
  the delay the caller has waited for (if any).
\<close>

definition submitToMockApi ::
  "'n store \<Rightarrow> 'n FormData \<Rightarrow> string \<Rightarrow> PartialMockApiConfig \<Rightarrow> api_env
     \<Rightarrow> 'n ApiResponse \<times> 'n store \<times> real option" where
  "submitToMockApi idempotencyStore formData idempotencyKey config env =
     (case submitToMockApi_start idempotencyStore formData idempotencyKey config env of
        Returned response store' \<Rightarrow> (response, store', None)
      | Sleeping delay submission \<Rightarrow>
          (case submitToMockApi_resume idempotencyStore idempotencyKey submission of
             (response, store') \<Rightarrow> (response, store', Some delay)))"

definition clearIdempotencyStore :: "'n store \<Rightarrow> 'n store" where
  "clearIdempotencyStore idempotencyStore = Map.empty"

subsection \<open>Calls that overlap\<close>

text \<open>
  Several calls may be in progress at once: while one sleeps, others start, return or
  wake up. The state of the service is the store together with the sleeping calls, each
  holding its key and its record. An event is the start of a call, the timer of the
  \<open>i\<close>-th sleeping call firing, or \<^verbatim>\<open>clearIdempotencyStore()\<close>.
\<close>

record 'n api_state =
  idempotencyStore :: "'n store"
  sleeping :: "(string \<times> 'n Submission) list"

datatype 'n api_event =
  Invoke "'n FormData" string PartialMockApiConfig api_env
| TimerFires nat
| ClearStore

definition api_init :: "'n api_state" where
  "api_init = \<lparr>idempotencyStore = Map.empty, sleeping = []\<rparr>"

fun api_step :: "'n api_event \<Rightarrow> 'n api_state \<Rightarrow> 'n api_state" where
  "api_step (Invoke formData key config env) s =
     (case submitToMockApi_start (idempotencyStore s) formData key config env of
        Returned response store' \<Rightarrow> s\<lparr>idempotencyStore := store'\<rparr>
      | Sleeping delay submission \<Rightarrow> s\<lparr>sleeping := sleeping s @ [(key, submission)]\<rparr>)"
| "api_step (TimerFires i) s =
     (if i < length (sleeping s) then
        (case sleeping s ! i of
           (key, submission) \<Rightarrow>
             s\<lparr>idempotencyStore := snd (submitToMockApi_resume (idempotencyStore s) key submission),
               sleeping := take i (sleeping s) @ drop (Suc i) (sleeping s)\<rparr>)
      else s)"
| "api_step ClearStore s = s\<lparr>idempotencyStore := clearIdempotencyStore (idempotencyStore s)\<rparr>"

fun api_run :: "'n api_event list \<Rightarrow> 'n api_state \<Rightarrow> 'n api_state" where
  "api_run [] s = s"
| "api_run (e # es) s = api_run es (api_step e s)"

section \<open>The submission hook (hooks/useSubmission.ts)\<close>

definition MAX_RETRIES :: nat where
  "MAX_RETRIES = 3"

text \<open>\<^verbatim>\<open>const RETRY_DELAY = 2000; // 2 seconds between retries\<close>\<close>

definition RETRY_DELAY :: nat where
  "RETRY_DELAY = 2000"

text \<open>
  The state the hook keeps between calls of \<^verbatim>\<open>submit\<close>: the four \<^verbatim>\<open>useState\<close> cells
  (the cell \<^verbatim>\<open>error\<close> is called \<open>error_state\<close> here) and the
  \<^verbatim>\<open>useRef<string | null>\<close> cell that tracks the submission in progress.
\<close>

record 'n hook_state =
  submissions :: "'n Submission list"
  isSubmitting :: bool
  error_state :: "string option"
  currentSubmission :: "'n Submission option"
  submissionInProgressRef :: "string option"

definition hook_init :: "'n hook_state" where
  "hook_init =
     \<lparr>submissions = [], isSubmitting = False, error_state = None,
      currentSubmission = None, submissionInProgressRef = None\<rparr>"

text \<open>\<^verbatim>\<open>Date.now()\<close> and the random suffix of the pending submission's \<^verbatim>\<open>id\<close>.\<close>

record submit_env =
  submit_now :: int
  submit_suffix :: string

text \<open>
  The local variables of one call of \<^verbatim>\<open>submit\<close> that live across its suspension
  points: \<^verbatim>\<open>formData\<close>, \<^verbatim>\<open>idempotencyKey\<close>, \<^verbatim>\<open>pendingSubmission\<close>,
  \<^verbatim>\<open>retryCount\<close> and \<^verbatim>\<open>lastError\<close>.
\<close>

record 'n task =
  t_formData :: "'n FormData"
  t_idempotencyKey :: string
  t_pendingSubmission :: "'n Submission"
  t_retryCount :: nat
  t_lastError :: "string option"

text \<open>\<^verbatim>\<open>const currentKey = `${formData.email}:${formData.amount}`\<close>\<close>

definition currentKey :: "('n \<Rightarrow> string) \<Rightarrow> 'n FormData \<Rightarrow> string" where
  "currentKey toStr formData = email formData @ '':'' @ toStr (amount formData)"

text \<open>
  The part of \<^verbatim>\<open>submit\<close> before the loop: the check of the reference cell, which
  either rejects the call, or lets it in, marks it in progress and publishes the pending
  submission.
\<close>

datatype 'n begin_result =
  AlreadyInProgress "'n hook_state"
| InFlight "'n hook_state" "'n task"

definition submit_begin ::
  "('n \<Rightarrow> string) \<Rightarrow> 'n FormData \<Rightarrow> submit_env \<Rightarrow> 'n hook_state \<Rightarrow> 'n begin_result" where
  "submit_begin toStr formData env h =
     (if submissionInProgressRef h = Some (currentKey toStr formData) then
        AlreadyInProgress (h\<lparr>error_state := Some ''Request already in progress. Please wait.''\<rparr>)
      else
        (let h1 = h\<lparr>isSubmitting := True, error_state := None,
                     submissionInProgressRef := Some (currentKey toStr formData)\<rparr>;
             submissionTimestamp = submit_now env;
             idempotencyKey = generateIdempotencyKey (email formData) submissionTimestamp;
             pendingSubmission =
               \<lparr>email = email formData, amount = amount formData,
                id_str = show_int submissionTimestamp @ ''-'' @ submit_suffix env,
                timestamp = submissionTimestamp,
                status = Pending, retryCount = 0, errorMessage = None\<rparr>
         in InFlight
              (h1\<lparr>currentSubmission := Some pendingSubmission\<rparr>)
              \<lparr>t_formData = formData, t_idempotencyKey = idempotencyKey,
               t_pendingSubmission = pendingSubmission,
               t_retryCount = 0, t_lastError = None\<rparr>))"

text \<open>
  How the awaited call of the endpoint ends: its promise resolves with a response, or it
  throws; the thrown value carries a message when it is an \<^verbatim>\<open>Error\<close>.
\<close>

datatype 'n api_result =
  Resolved "'n ApiResponse"
| Threw "string option"

text \<open>
  The body of the loop after the awaited call: either \<^verbatim>\<open>submit\<close> returns, or it
  publishes a retry and waits \<^verbatim>\<open>RETRY_DELAY\<close>. The test
  \<^verbatim>\<open>response.success && response.data\<close> holds when the flag is set and a record is
  present; \<^verbatim>\<open>response.error || "Unknown error occurred"\<close> takes the default for an
  absent or empty message.
\<close>

datatype 'n loop_step =
  Finished "'n hook_state"
| Backoff "'n hook_state" "'n task"

definition on_outcome :: "'n task \<Rightarrow> 'n api_result \<Rightarrow> 'n hook_state \<Rightarrow> 'n loop_step" where
  "on_outcome t res h =
     (case res of
        Resolved response \<Rightarrow>
          (case (if success response then data response else None) of
             Some d \<Rightarrow>
               (let successSubmission = d\<lparr>retryCount := t_retryCount t, status := Success\<rparr>
                in Finished
                     (h\<lparr>submissions := successSubmission # submissions h,
                        currentSubmission := Some successSubmission,
                        submissionInProgressRef := None,
                        isSubmitting := False\<rparr>))
           | None \<Rightarrow>
               (let lastError =
                      (case error response of
                         None \<Rightarrow> ''Unknown error occurred''
                       | Some e \<Rightarrow> if e = [] then ''Unknown error occurred'' else e)
                in if t_retryCount t < MAX_RETRIES then
                     (let retrySubmission =
                            (t_pendingSubmission t)
                              \<lparr>status := Retry, retryCount := t_retryCount t + 1,
                               errorMessage := Some (''Failed: '' @ lastError @ ''. Retrying...'')\<rparr>
                      in Backoff
                           (h\<lparr>currentSubmission := Some retrySubmission\<rparr>)
                           (t\<lparr>t_lastError := Some lastError\<rparr>))
                   else
                     (let failedSubmission =
                            (t_pendingSubmission t)
                              \<lparr>status := Error, retryCount := t_retryCount t,
                               errorMessage :=
                                 Some (''Failed after '' @ show_nat MAX_RETRIES @ '' retries: '' @ lastError)\<rparr>
                      in Finished
                           (h\<lparr>currentSubmission := Some failedSubmission,
                              error_state := Some (''Submission failed: '' @ lastError),
                              submissionInProgressRef := None,
                              isSubmitting := False\<rparr>))))
      | Threw err \<Rightarrow>
          (let errorMsg = (case err of Some m \<Rightarrow> m | None \<Rightarrow> ''Network error'')
           in if t_retryCount t < MAX_RETRIES then
                (let retrySubmission =
                       (t_pendingSubmission t)
                         \<lparr>status := Retry, retryCount := t_retryCount t + 1,
                          errorMessage := Some (''Error: '' @ errorMsg @ ''. Retrying...'')\<rparr>
                 in Backoff
                      (h\<lparr>currentSubmission := Some retrySubmission\<rparr>)
                      (t\<lparr>t_lastError := Some errorMsg\<rparr>))
              else
                (let failedSubmission =
                       (t_pendingSubmission t)
                         \<lparr>status := Error, retryCount := t_retryCount t,
                          errorMessage :=
                            Some (''Error after '' @ show_nat MAX_RETRIES @ '' retries: '' @ errorMsg)\<rparr>
                 in Finished
                      (h\<lparr>currentSubmission := Some failedSubmission,
                         error_state := Some (''Submission failed: '' @ errorMsg),
                         submissionInProgressRef := None,
                         isSubmitting := False\<rparr>))))"

text \<open>After the wait: \<^verbatim>\<open>retryCount++\<close>.\<close>

definition after_backoff :: "'n task \<Rightarrow> 'n task" where
  "after_backoff t = t\<lparr>t_retryCount := t_retryCount t + 1\<rparr>"

subsection \<open>One call of submit, run to its end\<close>

text \<open>
  The endpoint is a parameter \<open>call\<close>: given the form data and the key, it acts on a world
  \<open>'w\<close> (for the mock service, the store and the draws still to come) and ends in an
  \<open>api_result\<close>. A run records, besides the hook's state and the world, the number of
  calls of the endpoint made, every value passed to \<^verbatim>\<open>setCurrentSubmission\<close> in order,
  and the time spent in retry delays.
\<close>

record ('n, 'w) run =
  r_hook :: "'n hook_state"
  r_world :: 'w
  r_calls :: nat
  r_snapshots :: "'n Submission option list"
  r_waited :: nat

function submit_loop ::
  "('n FormData \<Rightarrow> string \<Rightarrow> 'w \<Rightarrow> 'n api_result \<times> 'w) \<Rightarrow> 'n task \<Rightarrow> ('n, 'w) run \<Rightarrow> ('n, 'w) run" where
  "submit_loop call t r =
     (if t_retryCount t \<le> MAX_RETRIES then
        (case call (t_formData t) (t_idempotencyKey t) (r_world r) of
           (res, w') \<Rightarrow>
             (case on_outcome t res (r_hook r) of
                Finished h' \<Rightarrow>
                  r\<lparr>r_hook := h', r_world := w', r_calls := r_calls r + 1,
                    r_snapshots := r_snapshots r @ [currentSubmission h']\<rparr>
              | Backoff h' t' \<Rightarrow>
                  submit_loop call (after_backoff t')
                    (r\<lparr>r_hook := h', r_world := w', r_calls := r_calls r + 1,
                       r_snapshots := r_snapshots r @ [currentSubmission h'],
                       r_waited := r_waited r + RETRY_DELAY\<rparr>)))
      else r)"
  by pat_completeness auto
termination
proof (relation "measure (\<lambda>(call, t, r). MAX_RETRIES + 1 - t_retryCount t)")
  show "wf (measure (\<lambda>(call, t, r). MAX_RETRIES + 1 - t_retryCount t))"
    by simp
next
  fix call :: "'n FormData \<Rightarrow> string \<Rightarrow> 'w \<Rightarrow> 'n api_result \<times> 'w"
    and t :: "'n task" and r :: "('n, 'w) run" and x res w' h' t'
  assume le: "t_retryCount t \<le> MAX_RETRIES"
    and step: "on_outcome t res (r_hook r) = Backoff h' t'"
  from step have "t_retryCount t' = t_retryCount t"
    by (auto simp: on_outcome_def Let_def split: api_result.splits option.splits if_splits)
  with le show
    "((call, after_backoff t',
       r\<lparr>r_hook := h', r_world := w', r_calls := r_calls r + 1,
         r_snapshots := r_snapshots r @ [currentSubmission h'],
         r_waited := r_waited r + RETRY_DELAY\<rparr>), call, t, r)
     \<in> measure (\<lambda>(call, t, r). MAX_RETRIES + 1 - t_retryCount t)"
    by (simp add: after_backoff_def)
qed

declare submit_loop.simps [simp del]

definition submit ::
  "('n \<Rightarrow> string) \<Rightarrow> ('n FormData \<Rightarrow> string \<Rightarrow> 'w \<Rightarrow> 'n api_result \<times> 'w)
     \<Rightarrow> 'n FormData \<Rightarrow> submit_env \<Rightarrow> 'n hook_state \<Rightarrow> 'w \<Rightarrow> ('n, 'w) run" where
  "submit toStr call formData env h w =
     (case submit_begin toStr formData env h of
        AlreadyInProgress h' \<Rightarrow>
          \<lparr>r_hook = h', r_world = w, r_calls = 0, r_snapshots = [], r_waited = 0\<rparr>
      | InFlight h' t \<Rightarrow>
          submit_loop call t
            \<lparr>r_hook = h', r_world = w, r_calls = 0,
             r_snapshots = [currentSubmission h'], r_waited = 0\<rparr>)"

text \<open>
  The mock service as the hook calls it, \<^verbatim>\<open>submitToMockApi(formData, idempotencyKey)\<close>
  with the default configuration: the world is the store and the stream of the
  surroundings of the calls still to come. The mock service has no \<^verbatim>\<open>throw\<close>: its
  promise always resolves.
\<close>

type_synonym 'n mock_world = "'n store \<times> (nat \<Rightarrow> api_env)"

definition mock_endpoint ::
  "'n FormData \<Rightarrow> string \<Rightarrow> 'n mock_world \<Rightarrow> 'n api_result \<times> 'n mock_world" where
  "mock_endpoint formData key w =
     (case w of
        (st, envs) \<Rightarrow>
          (case submitToMockApi st formData key empty_config (envs 0) of
             (response, st', waited) \<Rightarrow> (Resolved response, (st', \<lambda>i. envs (Suc i)))))"

text \<open>
  An outcome after which the loop does not return with a success: a response without the
  success flag or without a record, or a thrown value.
\<close>

definition retryable :: "'n api_result \<Rightarrow> bool" where
  "retryable res =
     (case res of
        Resolved response \<Rightarrow> (if success response then data response else None) = None
      | Threw err \<Rightarrow> True)"

text \<open>The world after \<open>n\<close> calls of the endpoint in a row.\<close>

fun world_after ::
  "('n FormData \<Rightarrow> string \<Rightarrow> 'w \<Rightarrow> 'n api_result \<times> 'w) \<Rightarrow> 'n FormData \<Rightarrow> string \<Rightarrow> 'w \<Rightarrow> nat \<Rightarrow> 'w" where
  "world_after call formData key w 0 = w"
| "world_after call formData key w (Suc n) =
     world_after call formData key (snd (call formData key w)) n"

text \<open>The next \<open>n\<close> calls of the endpoint in a row all end in a retryable outcome.\<close>

fun failing_run ::
  "('n FormData \<Rightarrow> string \<Rightarrow> 'w \<Rightarrow> 'n api_result \<times> 'w) \<Rightarrow> 'n FormData \<Rightarrow> string \<Rightarrow> 'w \<Rightarrow> nat \<Rightarrow> bool" where
  "failing_run call formData key w 0 = True"
| "failing_run call formData key w (Suc n) =
     (retryable (fst (call formData key w))
      \<and> failing_run call formData key (snd (call formData key w)) n)"

text \<open>The detail of a failure, as the loop extracts it, and the word its message starts with.\<close>

definition failure_detail :: "'n api_result \<Rightarrow> string" where
  "failure_detail res =
     (case res of
        Resolved response \<Rightarrow>
          (case error response of
             None \<Rightarrow> ''Unknown error occurred''
           | Some e \<Rightarrow> if e = [] then ''Unknown error occurred'' else e)
      | Threw err \<Rightarrow> (case err of Some m \<Rightarrow> m | None \<Rightarrow> ''Network error''))"

definition failure_word :: "'n api_result \<Rightarrow> string" where
  "failure_word res = (case res of Resolved response \<Rightarrow> ''Failed'' | Threw err \<Rightarrow> ''Error'')"

subsection \<open>Calls of submit that overlap\<close>

text \<open>
  A call of \<^verbatim>\<open>submit\<close> is suspended at its two \<^verbatim>\<open>await\<close>s: for the endpoint, and for
  the retry delay. Between suspensions it runs without interruption. The system is the
  hook's state, the calls in flight (each with its local variables and what it waits
  for) and the number of calls of the endpoint issued so far. The endpoint is the
  environment: an event is a call of \<^verbatim>\<open>submit\<close>, the endpoint settling the awaited call
  of the \<open>i\<close>-th call in flight, or the retry delay of the \<open>i\<close>-th call in flight
  elapsing.
\<close>

datatype awaiting = AwaitingEndpoint | AwaitingRetryDelay

record 'n hook_system =
  hook :: "'n hook_state"
  in_flight :: "('n task \<times> awaiting) list"
  endpoint_calls :: nat

datatype 'n hook_event =
  Submit "'n FormData" submit_env
| EndpointSettles nat "'n api_result"
| RetryDelayElapses nat

definition system_init :: "'n hook_system" where
  "system_init = \<lparr>hook = hook_init, in_flight = [], endpoint_calls = 0\<rparr>"

fun hook_step :: "('n \<Rightarrow> string) \<Rightarrow> 'n hook_event \<Rightarrow> 'n hook_system \<Rightarrow> 'n hook_system" where
  "hook_step toStr (Submit formData env) s =
     (case submit_begin toStr formData env (hook s) of
        AlreadyInProgress h' \<Rightarrow> s\<lparr>hook := h'\<rparr>
      | InFlight h' t \<Rightarrow>
          (if t_retryCount t \<le> MAX_RETRIES then
             s\<lparr>hook := h', in_flight := in_flight s @ [(t, AwaitingEndpoint)],
               endpoint_calls := endpoint_calls s + 1\<rparr>
           else s\<lparr>hook := h'\<rparr>))"
| "hook_step toStr (EndpointSettles i res) s =
     (if i < length (in_flight s) \<and> snd (in_flight s ! i) = AwaitingEndpoint then
        (case on_outcome (fst (in_flight s ! i)) res (hook s) of
           Finished h' \<Rightarrow>
             s\<lparr>hook := h', in_flight := take i (in_flight s) @ drop (Suc i) (in_flight s)\<rparr>
         | Backoff h' t' \<Rightarrow>
             s\<lparr>hook := h', in_flight := (in_flight s)[i := (t', AwaitingRetryDelay)]\<rparr>)
      else s)"
| "hook_step toStr (RetryDelayElapses i) s =
     (if i < length (in_flight s) \<and> snd (in_flight s ! i) = AwaitingRetryDelay then
        (let t' = after_backoff (fst (in_flight s ! i))
         in if t_retryCount t' \<le> MAX_RETRIES then
              s\<lparr>in_flight := (in_flight s)[i := (t', AwaitingEndpoint)],
                endpoint_calls := endpoint_calls s + 1\<rparr>
            else s\<lparr>in_flight := take i (in_flight s) @ drop (Suc i) (in_flight s)\<rparr>)
      else s)"

fun hook_run :: "('n \<Rightarrow> string) \<Rightarrow> 'n hook_event list \<Rightarrow> 'n hook_system \<Rightarrow> 'n hook_system" where
  "hook_run toStr [] s = s"
| "hook_run toStr (e # es) s = hook_run toStr es (hook_step toStr e s)"

text \<open>Two systems that differ at most in the hook's error message.\<close>

definition forget_error :: "'n hook_system \<Rightarrow> 'n hook_system" where
  "forget_error s = s\<lparr>hook := (hook s)\<lparr>error_state := None\<rparr>\<rparr>"

text \<open>
  A sequence of events during which no call of \<^verbatim>\<open>submit\<close> enters flight and none leaves
  it: at every step the number of calls in flight stays the same. (An accepted call adds
  one, a call that returns removes one; a rejected call, a failed attempt that goes on to
  a retry, and a retry delay that elapses change nothing in that number.)
\<close>

fun undisturbed :: "('n \<Rightarrow> string) \<Rightarrow> 'n hook_event list \<Rightarrow> 'n hook_system \<Rightarrow> bool" where
  "undisturbed toStr [] s = True"
| "undisturbed toStr (e # es) s =
     (length (in_flight (hook_step toStr e s)) = length (in_flight s)
      \<and> undisturbed toStr es (hook_step toStr e s))"

section \<open>Invariants and scenario data\<close>

text \<open>Every record of a store has status \<^verbatim>\<open>"success"\<close>.\<close>

definition success_only :: "'n store \<Rightarrow> bool" where
  "success_only st = (\<forall>k r. st k = Some r \<longrightarrow> status r = Success)"

text \<open>
  The data of the scenarios used below: two requests of the same identity and one of
  another, the surroundings of a call whose draw falls below the success rate, and of
  two calls whose draw falls in the delayed range: the first, at clock \<open>\<dots>300\<close>,
  sleeps \<open>6250\<close> ms, the second, at clock \<open>\<dots>400\<close>, sleeps \<open>7500\<close> ms.
\<close>

definition req50 :: "nat FormData" where
  "req50 = \<lparr>email = ''a@x.com'', amount = 50\<rparr>"

definition req60 :: "nat FormData" where
  "req60 = \<lparr>email = ''a@x.com'', amount = 60\<rparr>"

definition other_req :: "nat FormData" where
  "other_req = \<lparr>email = ''b@x.com'', amount = 10\<rparr>"

definition env_low :: api_env where
  "env_low =
     \<lparr>random_draw = 1 / 5, id_now = 1700000000200, id_suffix = ''k3j9x0q1z'',
      timestamp_now = 1700000000200, delay_draw = 1 / 2\<rparr>"

definition env_slow :: api_env where
  "env_slow =
     \<lparr>random_draw = 4 / 5, id_now = 1700000000300, id_suffix = ''abcdefghi'',
      timestamp_now = 1700000000300, delay_draw = 1 / 4\<rparr>"

definition env_slow' :: api_env where
  "env_slow' =
     \<lparr>random_draw = 9 / 10, id_now = 1700000000400, id_suffix = ''rstuvwxyz'',
      timestamp_now = 1700000000400, delay_draw = 1 / 2\<rparr>"

definition click :: submit_env where
  "click = \<lparr>submit_now = 1700000000123, submit_suffix = ''p0o9i8u7y''\<rparr>"

text \<open>
  The idempotency key of a click at time \<open>1700000000123\<close> for identity \<open>a@x.com\<close>, the
  records the two delayed calls build, and two streams of surroundings: every draw low;
  two low draws, then delayed ones.
\<close>

definition key50 :: string where
  "key50 = ''a@x.com:1700000000000''"

definition stored50 :: "nat Submission" where
  "stored50 =
     \<lparr>email = ''a@x.com'', amount = 50, id_str = ''1700000000300-abcdefghi'',
      timestamp = 1700000000300, status = Success, retryCount = 0, errorMessage = None\<rparr>"

definition stored60 :: "nat Submission" where
  "stored60 =
     \<lparr>email = ''a@x.com'', amount = 60, id_str = ''1700000000400-rstuvwxyz'',
      timestamp = 1700000000400, status = Success, retryCount = 0, errorMessage = None\<rparr>"

definition always_low :: "nat \<Rightarrow> api_env" where
  "always_low i = env_low"

definition low_low_slow :: "nat \<Rightarrow> api_env" where
  "low_low_slow i = (if i < 2 then env_low else env_slow)"

section \<open>Properties of the key derivation\<close>

text \<open>
  The decimal rendering of an integer determines the integer.
\<close>

lemma digit_char_inj: "a < 10 \<Longrightarrow> b < 10 \<Longrightarrow> digit_char a = digit_char b \<Longrightarrow> a = b"
proof -
  assume a: "a < 10" and b: "b < 10" and e: "digit_char a = digit_char b"
  have d: "distinct ''0123456789''" by simp
  have l: "length ''0123456789'' = 10" by simp
  from d a b e l show "a = b"
    unfolding digit_char_def by (metis nth_eq_iff_index_eq)
qed

lemma digit_char_in: "d < 10 \<Longrightarrow> digit_char d \<in> set ''0123456789''"
  unfolding digit_char_def by (rule nth_mem) simp

lemma show_nat_nonempty: "show_nat n \<noteq> []"
  by (subst show_nat.simps) simp

lemma show_nat_digits: "set (show_nat n) \<subseteq> set ''0123456789''"
proof (induction n rule: show_nat.induct)
  case (1 n)
  show ?case
  proof (cases "n < 10")
    case True
    then show ?thesis using digit_char_in [of n] by (subst show_nat.simps) simp
  next
    case False
    have "n mod 10 < 10" by simp
    then have "digit_char (n mod 10) \<in> set ''0123456789''" by (rule digit_char_in)
    with False 1 show ?thesis by (subst show_nat.simps) simp
  qed
qed

lemma show_nat_inj: "show_nat a = show_nat b \<Longrightarrow> a = b"
proof (induction a arbitrary: b rule: show_nat.induct)
  case (1 a)
  show ?case
  proof (cases "a < 10")
    case a: True
    show ?thesis
    proof (cases "b < 10")
      case True
      with a 1(2) show ?thesis
        by (simp add: show_nat.simps [of a] show_nat.simps [of b] digit_char_inj)
    next
      case False
      with a 1(2) show_nat_nonempty [of "b div 10"] show ?thesis
        by (simp add: show_nat.simps [of a] show_nat.simps [of b])
    qed
  next
    case a: False
    show ?thesis
    proof (cases "b < 10")
      case True
      with a 1(2) show_nat_nonempty [of "a div 10"] show ?thesis
        by (simp add: show_nat.simps [of a] show_nat.simps [of b])
    next
      case False
      with a 1(2) have e: "show_nat (a div 10) = show_nat (b div 10)"
        and d: "digit_char (a mod 10) = digit_char (b mod 10)"
        by (simp_all add: show_nat.simps [of a] show_nat.simps [of b])
      from 1(1) [OF a e] have q: "a div 10 = b div 10" .
      have "a mod 10 = b mod 10" using d by (intro digit_char_inj) simp_all
      with q show ?thesis by (metis div_mult_mod_eq)
    qed
  qed
qed

lemma show_nat_no_sign: "show_nat n \<noteq> CHR ''-'' # s"
proof
  assume "show_nat n = CHR ''-'' # s"
  then have "CHR ''-'' \<in> set (show_nat n)" by simp
  with show_nat_digits [of n] show False by auto
qed

lemma show_int_inj: "show_int a = show_int b \<Longrightarrow> a = b"
proof -
  assume e: "show_int a = show_int b"
  show "a = b"
  proof (cases "a < 0")
    case a: True
    show ?thesis
    proof (cases "b < 0")
      case True
      with a e have "show_nat (nat (- a)) = show_nat (nat (- b))" by (simp add: show_int_def)
      then have "nat (- a) = nat (- b)" by (rule show_nat_inj)
      with a True show ?thesis by simp
    next
      case False
      with a e have "show_nat (nat b) = CHR ''-'' # show_nat (nat (- a))"
        by (simp add: show_int_def)
      with show_nat_no_sign show ?thesis by blast
    qed
  next
    case a: False
    show ?thesis
    proof (cases "b < 0")
      case True
      with a e have "show_nat (nat a) = CHR ''-'' # show_nat (nat (- b))"
        by (simp add: show_int_def)
      with show_nat_no_sign show ?thesis by blast
    next
      case False
      with a e have "show_nat (nat a) = show_nat (nat b)" by (simp add: show_int_def)
      then have "nat a = nat b" by (rule show_nat_inj)
      with a False show ?thesis by simp
    qed
  qed
qed

lemma key_eq_iff:
  "generateIdempotencyKey e t1 = generateIdempotencyKey e t2 \<longleftrightarrow> t1 div 1000 = t2 div 1000"
  unfolding generateIdempotencyKey_def Let_def
  using show_int_inj [of "t1 div 1000 * 1000" "t2 div 1000 * 1000"] by auto

lemma a_second_apart:
  fixes t1 t2 :: int
  assumes far: "1000 \<le> \<bar>t1 - t2\<bar>"
  shows "t1 div 1000 \<noteq> t2 div 1000"
proof
  assume q: "t1 div 1000 = t2 div 1000"
  have "t1 = 1000 * (t1 div 1000) + t1 mod 1000" and "t2 = 1000 * (t2 div 1000) + t2 mod 1000"
    by simp_all
  moreover have "0 \<le> t1 mod 1000" "t1 mod 1000 < 1000" "0 \<le> t2 mod 1000" "t2 mod 1000 < 1000"
    by simp_all
  ultimately show False using q far by linarith
qed

lemma key_calc:
  "generateIdempotencyKey ''a@x.com'' 1700000000123 = ''a@x.com:1700000000000''"
  "generateIdempotencyKey ''a@x.com'' 1700000000999 = ''a@x.com:1700000000000''"
  "generateIdempotencyKey ''a@x.com'' 1700000001123 = ''a@x.com:1700000001000''"
  by (simp_all add: generateIdempotencyKey_def show_int_def show_nat.simps digit_char_def)

text \<open>
  Claim C5. For every identity and every pair of timestamps: two timestamps within the
  same second (the same whole number of seconds since the epoch) derive identical keys;
  two timestamps at least one second (1000 ms) apart derive distinct keys; and the key
  is the identity, a colon, and the timestamp rounded down to a whole second, in
  decimal. The key is a function of the identity and the timestamp alone. (Two
  timestamps are within the same second when they have the same whole number of
  seconds, \<open>t div 1000\<close>; being less than a second apart across a second boundary is
  not meant.)
\<close>

theorem key_window:
  "(t1 div 1000 = t2 div 1000 \<longrightarrow> generateIdempotencyKey e t1 = generateIdempotencyKey e t2)
   \<and> (1000 \<le> \<bar>t1 - t2\<bar> \<longrightarrow> generateIdempotencyKey e t1 \<noteq> generateIdempotencyKey e t2)
   \<and> generateIdempotencyKey e t1 = e @ '':'' @ show_int (t1 div 1000 * 1000)"
proof (intro conjI impI)
  assume "t1 div 1000 = t2 div 1000"
  then show "generateIdempotencyKey e t1 = generateIdempotencyKey e t2"
    by (simp add: key_eq_iff)
next
  assume "1000 \<le> \<bar>t1 - t2\<bar>"
  then have "t1 div 1000 \<noteq> t2 div 1000" by (rule a_second_apart)
  then show "generateIdempotencyKey e t1 \<noteq> generateIdempotencyKey e t2"
    by (simp add: key_eq_iff)
next
  show "generateIdempotencyKey e t1 = e @ '':'' @ show_int (t1 div 1000 * 1000)"
    by (simp add: generateIdempotencyKey_def)
qed

text \<open>
  At identity \<open>a@x.com\<close>: \<open>1700000000123\<close> and \<open>1700000000999\<close> fall in the same second,
  \<open>1700000001123\<close> is one second later.
\<close>

theorem key_window_witness:
  "(1700000000123 :: int) div 1000 = 1700000000999 div 1000
   \<and> generateIdempotencyKey ''a@x.com'' 1700000000123
       = generateIdempotencyKey ''a@x.com'' 1700000000999
   \<and> (1000 :: int) \<le> \<bar>1700000000123 - 1700000001123\<bar>
   \<and> generateIdempotencyKey ''a@x.com'' 1700000000123
       \<noteq> generateIdempotencyKey ''a@x.com'' 1700000001123
   \<and> generateIdempotencyKey ''a@x.com'' 1700000000123 = ''a@x.com:1700000000000''"
proof -
  have same: "(1700000000123 :: int) div 1000 = 1700000000999 div 1000" by simp
  have far: "(1000 :: int) \<le> \<bar>1700000000123 - 1700000001123\<bar>" by simp
  from key_window [of 1700000000123 1700000000999 "''a@x.com''"] same
  have a: "generateIdempotencyKey ''a@x.com'' 1700000000123
             = generateIdempotencyKey ''a@x.com'' 1700000000999"
    by blast
  from key_window [of 1700000000123 1700000001123 "''a@x.com''"] far
  have b: "generateIdempotencyKey ''a@x.com'' 1700000000123
             \<noteq> generateIdempotencyKey ''a@x.com'' 1700000001123"
    by blast
  from same a far b key_calc(1) show ?thesis by (intro conjI)
qed

section \<open>Properties of the mock service\<close>

lemma start_cached:
  "st key = Some cached \<Longrightarrow>
   submitToMockApi_start st fd key cfg env =
     Returned \<lparr>success = (status cached = Success), data = Some cached,
               error = (if status cached = Error then errorMessage cached else None)\<rparr> st"
  by (simp add: submitToMockApi_start_def)

lemma default_rates:
  "successRate (finalConfig empty_config) = 4 / 10"
  "failureRate (finalConfig empty_config) = 3 / 10"
  "minDelay (finalConfig empty_config) = 5000"
  "maxDelay (finalConfig empty_config) = 10000"
  by (simp_all add: finalConfig_def empty_config_def DEFAULT_CONFIG_def)

lemmas api_eval = api_init_def submitToMockApi_def submitToMockApi_start_def
  submitToMockApi_resume_def Let_def finalConfig_def empty_config_def DEFAULT_CONFIG_def
  env_slow_def env_slow'_def env_low_def req50_def req60_def key50_def stored50_def
  stored60_def show_int_def show_nat.simps digit_char_def

lemma slow_call_alone:
  "submitToMockApi (Map.empty :: nat store) req50 key50 empty_config env_slow
     = (\<lparr>success = True, data = Some stored50, error = None\<rparr>, [key50 \<mapsto> stored50], Some 6250)"
  by (simp add: api_eval)

lemma low_call_alone:
  "submitToMockApi (Map.empty :: nat store) req50 key50 empty_config env_low
     = (\<lparr>success = False, data = None, error = Some ''Service temporarily unavailable''\<rparr>,
        Map.empty, None)"
  by (simp add: api_eval)

lemma slow_run_store:
  "idempotencyStore (api_run [Invoke req50 key50 empty_config env_slow, TimerFires 0] api_init)
     = [key50 \<mapsto> stored50]"
  by (simp add: api_eval)

text \<open>
  Claim C1 says that under the default configuration some draw, and in particular every
  draw below \<^verbatim>\<open>successRate\<close>, yields an immediate success. The code computes
  \<^verbatim>\<open>isFailure = random < successRate + failureRate\<close>, which also holds for every draw
  below \<^verbatim>\<open>successRate\<close>, and tests \<^verbatim>\<open>isFailure\<close> before it reaches the success
  branch. So on a key that is not cached, with the default configuration, every draw
  below \<open>7/10\<close> returns the temporary failure at once and leaves the store as it is, and
  every other draw waits for the delay: no draw yields an immediate success.
\<close>

theorem default_draw_never_immediate_success:
  assumes "st key = None"
  shows "(random_draw env < 7 / 10 \<longrightarrow>
            submitToMockApi_start st fd key empty_config env =
              Returned \<lparr>success = False, data = None,
                        error = Some ''Service temporarily unavailable''\<rparr> st)
         \<and> (\<not> random_draw env < 7 / 10 \<longrightarrow>
            (\<exists>delay submission.
               submitToMockApi_start st fd key empty_config env = Sleeping delay submission))"
  using assms by (simp add: submitToMockApi_start_def default_rates Let_def)

text \<open>
  The draw \<open>1/5\<close> is below the success rate \<open>4/10\<close>, and the call fails.
\<close>

theorem default_draw_never_immediate_success_witness:
  "(Map.empty :: nat store) key50 = None
   \<and> random_draw env_low < successRate DEFAULT_CONFIG
   \<and> submitToMockApi_start (Map.empty :: nat store) req50 key50 empty_config env_low =
       Returned \<lparr>success = False, data = None,
                 error = Some ''Service temporarily unavailable''\<rparr> Map.empty"
proof -
  have h: "(Map.empty :: nat store) key50 = None" by simp
  have d: "random_draw env_low < 7 / 10" "random_draw env_low < successRate DEFAULT_CONFIG"
    by (simp_all add: env_low_def DEFAULT_CONFIG_def)
  from default_draw_never_immediate_success [OF h, of env_low req50] d h
  show ?thesis by simp
qed

text \<open>
  Claim C2. A call whose key is present in the store returns the cached record's
  outcome: the success flag says whether the record's status is \<^verbatim>\<open>"success"\<close>, the data
  is the record, the error is the record's message when its status is \<^verbatim>\<open>"error"\<close>. The
  result is the same for any other surroundings \<open>env'\<close> (no draw is observable), nothing
  is waited for, and the store after the call is the store before it.
\<close>

theorem cached_short_circuit:
  assumes "st key = Some cached"
  shows "submitToMockApi st fd key cfg env =
           (\<lparr>success = (status cached = Success), data = Some cached,
             error = (if status cached = Error then errorMessage cached else None)\<rparr>, st, None)
         \<and> submitToMockApi st fd key cfg env = submitToMockApi st fd key cfg env'
         \<and> fst (snd (submitToMockApi st fd key cfg env)) = st"
  using assms by (simp add: submitToMockApi_def start_cached)

theorem cached_short_circuit_witness:
  "[key50 \<mapsto> stored50] key50 = Some stored50
   \<and> submitToMockApi [key50 \<mapsto> stored50] req60 key50 empty_config env_low =
       (\<lparr>success = True, data = Some stored50, error = None\<rparr>, [key50 \<mapsto> stored50], None)
   \<and> submitToMockApi [key50 \<mapsto> stored50] req60 key50 empty_config env_low =
       submitToMockApi [key50 \<mapsto> stored50] req60 key50 empty_config env_slow"
proof -
  have h: "[key50 \<mapsto> stored50] key50 = Some stored50" by simp
  have s: "status stored50 = Success" by (simp add: stored50_def)
  note T = cached_short_circuit [where st = "[key50 \<mapsto> stored50]" and key = key50
      and cached = stored50 and fd = req60 and cfg = empty_config and env = env_low
      and env' = env_slow, OF h]
  from T have A: "submitToMockApi [key50 \<mapsto> stored50] req60 key50 empty_config env_low =
       (\<lparr>success = True, data = Some stored50, error = None\<rparr>, [key50 \<mapsto> stored50], None)"
    unfolding s by simp
  from T have B: "submitToMockApi [key50 \<mapsto> stored50] req60 key50 empty_config env_low =
       submitToMockApi [key50 \<mapsto> stored50] req60 key50 empty_config env_slow"
    by (rule conjunct1 [OF conjunct2])
  from h A B show ?thesis by (intro conjI)
qed

subsection \<open>Only successes are stored\<close>

lemma start_success_only:
  "success_only st \<Longrightarrow> submitToMockApi_start st fd key cfg env = Returned response st'
     \<Longrightarrow> success_only st'"
  by (auto simp: submitToMockApi_start_def success_only_def Let_def
           split: option.splits if_splits)

lemma resume_success_only:
  "success_only st \<Longrightarrow> success_only (snd (submitToMockApi_resume st key submission))"
  by (simp add: submitToMockApi_resume_def success_only_def Let_def)

lemma api_step_success_only:
  "success_only (idempotencyStore s) \<Longrightarrow> success_only (idempotencyStore (api_step e s))"
proof (cases e)
  case (Invoke fd key cfg env)
  assume "success_only (idempotencyStore s)"
  then show ?thesis using Invoke
    by (auto split: api_progress.splits dest: start_success_only)
next
  case (TimerFires i)
  assume "success_only (idempotencyStore s)"
  then show ?thesis using TimerFires
    by (auto split: prod.splits simp: resume_success_only
             dest: resume_success_only [where key = "fst (sleeping s ! i)" and submission = "snd (sleeping s ! i)"])
next
  case ClearStore
  then show ?thesis by (simp add: clearIdempotencyStore_def success_only_def)
qed

lemma api_run_success_only:
  "success_only (idempotencyStore s) \<Longrightarrow> success_only (idempotencyStore (api_run evs s))"
  by (induction evs arbitrary: s) (simp_all add: api_step_success_only)

lemma api_init_success_only: "success_only (idempotencyStore api_init)"
  by (simp add: api_init_def success_only_def)

lemma call_changes_store:
  "submitToMockApi st fd key cfg env = (response, st', waited) \<Longrightarrow> st' \<noteq> st \<Longrightarrow>
     success response \<and> (\<exists>d. data response = Some d \<and> status d = Success \<and> st' = st(key \<mapsto> d))"
  by (auto simp: submitToMockApi_def submitToMockApi_start_def submitToMockApi_resume_def Let_def
           split: option.splits if_splits)

lemma call_failure_keeps_store:
  "submitToMockApi st fd key cfg env = (response, st', waited) \<Longrightarrow> \<not> success response \<Longrightarrow> st' = st"
  using call_changes_store by blast

lemma call_success_record:
  "submitToMockApi st fd key cfg env = (response, st', waited) \<Longrightarrow> success response \<Longrightarrow>
     \<exists>d. data response = Some d \<and> st' = st(key \<mapsto> d)"
  by (auto simp: submitToMockApi_def submitToMockApi_start_def submitToMockApi_resume_def Let_def
                 map_upd_triv
           split: option.splits if_splits)

text \<open>
  Claim C3. Whatever calls are started, in whatever order their timers fire and however
  often the store is cleared, every record the store holds has status \<^verbatim>\<open>"success"\<close>.
  A call changes the store only when it responds with a success, and then it adds exactly
  the record it returns, with status \<^verbatim>\<open>"success"\<close>, under its key. On the
  temporary-failure branch (the key is not cached and the draw is below
  \<^verbatim>\<open>successRate + failureRate\<close>) the call returns the error response without a record
  and the store is as before.
\<close>

theorem only_success_committed:
  "(\<forall>k r. idempotencyStore (api_run evs api_init) k = Some r \<longrightarrow> status r = Success)
   \<and> (fst (snd (submitToMockApi st fd key cfg env)) \<noteq> st \<longrightarrow>
        success (fst (submitToMockApi st fd key cfg env))
        \<and> (\<exists>d. data (fst (submitToMockApi st fd key cfg env)) = Some d
               \<and> status d = Success
               \<and> fst (snd (submitToMockApi st fd key cfg env)) = st(key \<mapsto> d)))
   \<and> (st key = None \<longrightarrow>
        random_draw env < successRate (finalConfig cfg) + failureRate (finalConfig cfg) \<longrightarrow>
        submitToMockApi st fd key cfg env =
          (\<lparr>success = False, data = None, error = Some ''Service temporarily unavailable''\<rparr>,
           st, None))"
proof (intro conjI allI impI)
  fix k r
  assume "idempotencyStore (api_run evs api_init) k = Some r"
  moreover have "success_only (idempotencyStore (api_run evs (api_init :: 'a api_state)))"
    using api_init_success_only by (rule api_run_success_only)
  ultimately show "status r = Success"
    unfolding success_only_def by blast
next
  assume ch: "fst (snd (submitToMockApi st fd key cfg env)) \<noteq> st"
  obtain response st' waited
    where c: "submitToMockApi st fd key cfg env = (response, st', waited)"
    by (cases "submitToMockApi st fd key cfg env")
  from ch c have "st' \<noteq> st" by simp
  from call_changes_store [OF c this] c
  show "success (fst (submitToMockApi st fd key cfg env))"
    and "\<exists>d. data (fst (submitToMockApi st fd key cfg env)) = Some d
               \<and> status d = Success
               \<and> fst (snd (submitToMockApi st fd key cfg env)) = st(key \<mapsto> d)"
    by simp_all
next
  assume "st key = None"
    and "random_draw env < successRate (finalConfig cfg) + failureRate (finalConfig cfg)"
  then show "submitToMockApi st fd key cfg env =
          (\<lparr>success = False, data = None, error = Some ''Service temporarily unavailable''\<rparr>,
           st, None)"
    by (simp add: submitToMockApi_def submitToMockApi_start_def Let_def)
qed

theorem only_success_committed_witness:
  "idempotencyStore (api_run [Invoke req50 key50 empty_config env_slow, TimerFires 0] api_init) key50
     = Some stored50
   \<and> status stored50 = Success
   \<and> fst (snd (submitToMockApi (Map.empty :: nat store) req50 key50 empty_config env_slow)) \<noteq> Map.empty
   \<and> success (fst (submitToMockApi (Map.empty :: nat store) req50 key50 empty_config env_slow))
   \<and> (Map.empty :: nat store) key50 = None
   \<and> random_draw env_low < successRate (finalConfig empty_config) + failureRate (finalConfig empty_config)
   \<and> submitToMockApi (Map.empty :: nat store) req50 key50 empty_config env_low =
          (\<lparr>success = False, data = None, error = Some ''Service temporarily unavailable''\<rparr>,
           Map.empty, None)"
proof -
  have a: "idempotencyStore
       (api_run [Invoke req50 key50 empty_config env_slow, TimerFires 0] api_init) key50
       = Some stored50"
    unfolding slow_run_store by simp
  have b: "fst (snd (submitToMockApi (Map.empty :: nat store) req50 key50 empty_config env_slow))
             \<noteq> Map.empty"
    unfolding slow_call_alone by simp
  have c: "(Map.empty :: nat store) key50 = None" by simp
  have d: "random_draw env_low
             < successRate (finalConfig empty_config) + failureRate (finalConfig empty_config)"
    by (simp add: default_rates env_low_def)
  note T = only_success_committed
    [where evs = "[Invoke req50 key50 empty_config env_slow, TimerFires 0]"
       and st = "Map.empty :: nat store" and fd = req50 and key = key50 and cfg = empty_config]
  from T [where env = env_slow] a have "status stored50 = Success" by blast
  moreover from T [where env = env_slow] b
  have "success (fst (submitToMockApi (Map.empty :: nat store) req50 key50 empty_config env_slow))"
    by blast
  moreover from T [where env = env_low] c d
  have "submitToMockApi (Map.empty :: nat store) req50 key50 empty_config env_low =
          (\<lparr>success = False, data = None, error = Some ''Service temporarily unavailable''\<rparr>,
           Map.empty, None)"
    by blast
  ultimately show ?thesis using a b c d by (intro conjI)
qed

text \<open>
  Claim C10. From the empty store, after any calls, timers and clearings, a call that
  finds its key in the store answers with \<^verbatim>\<open>success: true\<close>, the cached record and no
  error: the error arm of the cached response is never taken.
\<close>

theorem cached_reply_is_success:
  assumes "idempotencyStore (api_run evs api_init) key = Some cached"
  shows "success (fst (submitToMockApi (idempotencyStore (api_run evs api_init)) fd key cfg env))
         \<and> error (fst (submitToMockApi (idempotencyStore (api_run evs api_init)) fd key cfg env)) = None
         \<and> data (fst (submitToMockApi (idempotencyStore (api_run evs api_init)) fd key cfg env))
             = Some cached"
proof -
  have "success_only (idempotencyStore (api_run evs (api_init :: 'a api_state)))"
    using api_init_success_only by (rule api_run_success_only)
  with assms have "status cached = Success"
    unfolding success_only_def by blast
  with assms show ?thesis
    by (simp add: submitToMockApi_def start_cached)
qed

theorem cached_reply_is_success_witness:
  "idempotencyStore (api_run [Invoke req50 key50 empty_config env_slow, TimerFires 0] api_init) key50
     = Some stored50
   \<and> success (fst (submitToMockApi
        (idempotencyStore (api_run [Invoke req50 key50 empty_config env_slow, TimerFires 0] api_init))
        req60 key50 empty_config env_low))
   \<and> error (fst (submitToMockApi
        (idempotencyStore (api_run [Invoke req50 key50 empty_config env_slow, TimerFires 0] api_init))
        req60 key50 empty_config env_low)) = None"
proof -
  have a: "idempotencyStore
       (api_run [Invoke req50 key50 empty_config env_slow, TimerFires 0] api_init) key50
       = Some stored50"
    unfolding slow_run_store by simp
  from cached_reply_is_success [OF a, of req60 empty_config env_low] a
  show ?thesis by blast
qed

subsection \<open>Overwriting a stored record\<close>


lemma api_run_append: "api_run (es @ es') s = api_run es' (api_run es s)"
  by (induction es arbitrary: s) simp_all









section \<open>Properties of the submission hook\<close>

lemma on_outcome_success:
  "success response \<Longrightarrow> data response = Some d \<Longrightarrow>
   on_outcome t (Resolved response) h =
     Finished (h\<lparr>submissions := d\<lparr>retryCount := t_retryCount t, status := Success\<rparr> # submissions h,
                 currentSubmission := Some (d\<lparr>retryCount := t_retryCount t, status := Success\<rparr>),
                 submissionInProgressRef := None, isSubmitting := False\<rparr>)"
  by (simp add: on_outcome_def Let_def)

lemma on_outcome_retry:
  "retryable res \<Longrightarrow> t_retryCount t < MAX_RETRIES \<Longrightarrow>
   on_outcome t res h =
     Backoff
       (h\<lparr>currentSubmission :=
            Some ((t_pendingSubmission t)
                    \<lparr>status := Retry, retryCount := t_retryCount t + 1,
                     errorMessage :=
                       Some (failure_word res @ '': '' @ failure_detail res @ ''. Retrying...'')\<rparr>)\<rparr>)
       (t\<lparr>t_lastError := Some (failure_detail res)\<rparr>)"
  by (cases res)
     (simp_all add: on_outcome_def retryable_def failure_word_def failure_detail_def Let_def)

lemma on_outcome_exhausted:
  "retryable res \<Longrightarrow> \<not> t_retryCount t < MAX_RETRIES \<Longrightarrow>
   on_outcome t res h =
     Finished
       (h\<lparr>currentSubmission :=
            Some ((t_pendingSubmission t)
                    \<lparr>status := Error, retryCount := t_retryCount t,
                     errorMessage :=
                       Some (failure_word res @ '' after '' @ show_nat MAX_RETRIES
                             @ '' retries: '' @ failure_detail res)\<rparr>),
          error_state := Some (''Submission failed: '' @ failure_detail res),
          submissionInProgressRef := None, isSubmitting := False\<rparr>)"
  by (cases res)
     (simp_all add: on_outcome_def retryable_def failure_word_def failure_detail_def Let_def)

lemma not_retryable:
  "\<not> retryable res \<Longrightarrow> \<exists>response d. res = Resolved response \<and> success response \<and> data response = Some d"
  by (cases res) (auto simp: retryable_def split: if_splits)

lemma backoff_count:
  "on_outcome t res h = Backoff h' t' \<Longrightarrow>
     t_retryCount t' = t_retryCount t \<and> t_retryCount t < MAX_RETRIES"
  by (auto simp: on_outcome_def Let_def split: api_result.splits option.splits if_splits)

lemma show_budget: "show_nat MAX_RETRIES = ''3''"
  by (simp add: MAX_RETRIES_def show_nat.simps digit_char_def)

lemma submit_accepted:
  "submissionInProgressRef h \<noteq> Some (currentKey toStr fd) \<Longrightarrow>
   \<exists>h' t. submit_begin toStr fd env h = InFlight h' t
     \<and> h' = h\<lparr>isSubmitting := True, error_state := None,
              submissionInProgressRef := Some (currentKey toStr fd),
              currentSubmission := Some (t_pendingSubmission t)\<rparr>
     \<and> t_formData t = fd
     \<and> t_idempotencyKey t = generateIdempotencyKey (email fd) (submit_now env)
     \<and> t_pendingSubmission t =
         \<lparr>email = email fd, amount = amount fd,
          id_str = show_int (submit_now env) @ ''-'' @ submit_suffix env,
          timestamp = submit_now env, status = Pending, retryCount = 0, errorMessage = None\<rparr>
     \<and> t_retryCount t = 0"
  by (simp add: submit_begin_def Let_def)

lemma world_after_Suc:
  "world_after call fd key w (Suc n) = snd (call fd key (world_after call fd key w n))"
  by (induction n arbitrary: w) simp_all

lemma loop_calls_bound:
  "r_calls (submit_loop call t r) \<le> r_calls r + (MAX_RETRIES + 1 - t_retryCount t)"
proof (induction call t r rule: submit_loop.induct)
  case (1 call t r)
  show ?case
  proof (cases "t_retryCount t \<le> MAX_RETRIES")
    case False
    then show ?thesis by (subst submit_loop.simps) simp
  next
    case True
    obtain res w' where c: "call (t_formData t) (t_idempotencyKey t) (r_world r) = (res, w')"
      by (cases "call (t_formData t) (t_idempotencyKey t) (r_world r)")
    show ?thesis
    proof (cases "on_outcome t res (r_hook r)")
      case (Finished h')
      with True c show ?thesis by (subst submit_loop.simps) simp
    next
      case (Backoff h' t')
      from backoff_count [OF Backoff] have n: "t_retryCount t' = t_retryCount t"
        and lt: "t_retryCount t < MAX_RETRIES" by simp_all
      from "1.IH" [OF True c [symmetric] Backoff]
      have "r_calls (submit_loop call (after_backoff t')
               (r\<lparr>r_hook := h', r_world := w', r_calls := r_calls r + 1,
                  r_snapshots := r_snapshots r @ [currentSubmission h'],
                  r_waited := r_waited r + RETRY_DELAY\<rparr>))
            \<le> r_calls r + 1 + (MAX_RETRIES + 1 - (t_retryCount t + 1))"
        using n by (simp add: after_backoff_def)
      with True c Backoff lt show ?thesis
        by (subst submit_loop.simps) simp
    qed
  qed
qed

text \<open>
  Claim C6. Whatever the endpoint does at each call (resolve with any response, or
  throw), a call of \<^verbatim>\<open>submit\<close> ends (the loop is a total function, given that each
  awaited call of the endpoint settles) having called the endpoint at most
  \<^verbatim>\<open>MAX_RETRIES + 1\<close> times, which is 4.
\<close>

theorem retry_loop_bounded:
  "r_calls (submit toStr call fd env h w) \<le> MAX_RETRIES + 1 \<and> MAX_RETRIES + 1 = 4"
proof -
  have "r_calls (submit toStr call fd env h w) \<le> MAX_RETRIES + 1"
  proof (cases "submit_begin toStr fd env h")
    case (AlreadyInProgress h')
    then show ?thesis by (simp add: submit_def)
  next
    case (InFlight h' t)
    have "r_calls (submit_loop call t
             \<lparr>r_hook = h', r_world = w, r_calls = 0,
              r_snapshots = [currentSubmission h'], r_waited = 0\<rparr>)
          \<le> 0 + (MAX_RETRIES + 1 - t_retryCount t)"
      using loop_calls_bound [of call t "\<lparr>r_hook = h', r_world = w, r_calls = 0,
              r_snapshots = [currentSubmission h'], r_waited = 0\<rparr>"] by simp
    with InFlight show ?thesis by (simp add: submit_def)
  qed
  then show ?thesis by (simp add: MAX_RETRIES_def)
qed

theorem retry_loop_bounded_witness:
  "r_calls (submit show_nat mock_endpoint req50 click hook_init (Map.empty, always_low)) \<le> 4"
  using retry_loop_bounded [of show_nat mock_endpoint req50 click hook_init "(Map.empty, always_low)"]
  by simp

subsection \<open>Success after k failures\<close>

lemma loop_succeeds_after:
  assumes "failing_run call (t_formData t) (t_idempotencyKey t) (r_world r) n"
    and "t_retryCount t + n \<le> MAX_RETRIES"
    and "fst (call (t_formData t) (t_idempotencyKey t)
            (world_after call (t_formData t) (t_idempotencyKey t) (r_world r) n)) = Resolved response"
    and "success response" and "data response = Some d"
  shows "r_hook (submit_loop call t r) =
           (r_hook r)
             \<lparr>submissions :=
                d\<lparr>retryCount := t_retryCount t + n, status := Success\<rparr> # submissions (r_hook r),
              currentSubmission := Some (d\<lparr>retryCount := t_retryCount t + n, status := Success\<rparr>),
              submissionInProgressRef := None, isSubmitting := False\<rparr>
         \<and> r_world (submit_loop call t r) =
             world_after call (t_formData t) (t_idempotencyKey t) (r_world r) (Suc n)
         \<and> r_calls (submit_loop call t r) = r_calls r + Suc n"
  using assms
proof (induction n arbitrary: t r)
  case 0
  obtain res w' where c: "call (t_formData t) (t_idempotencyKey t) (r_world r) = (res, w')"
    by (cases "call (t_formData t) (t_idempotencyKey t) (r_world r)")
  from 0 c have res: "res = Resolved response" and le: "t_retryCount t \<le> MAX_RETRIES"
    by simp_all
  show ?case
    by (subst (1 2 3) submit_loop.simps)
       (simp add: c le res on_outcome_success [OF "0.prems"(4,5)])
next
  case (Suc n)
  obtain res w' where c: "call (t_formData t) (t_idempotencyKey t) (r_world r) = (res, w')"
    by (cases "call (t_formData t) (t_idempotencyKey t) (r_world r)")
  from Suc.prems c have rt: "retryable res" and lt: "t_retryCount t < MAX_RETRIES"
    and rest: "failing_run call (t_formData t) (t_idempotencyKey t) w' n"
    by simp_all
  let ?t' = "after_backoff (t\<lparr>t_lastError := Some (failure_detail res)\<rparr>)"
  let ?r' = "r\<lparr>r_hook := (r_hook r)\<lparr>currentSubmission :=
            Some ((t_pendingSubmission t)
                    \<lparr>status := Retry, retryCount := t_retryCount t + 1,
                     errorMessage :=
                       Some (failure_word res @ '': '' @ failure_detail res @ ''. Retrying...'')\<rparr>)\<rparr>,
               r_world := w', r_calls := r_calls r + 1,
               r_snapshots := r_snapshots r @ [Some ((t_pendingSubmission t)
                    \<lparr>status := Retry, retryCount := t_retryCount t + 1,
                     errorMessage :=
                       Some (failure_word res @ '': '' @ failure_detail res @ ''. Retrying...'')\<rparr>)],
               r_waited := r_waited r + RETRY_DELAY\<rparr>"
  have unfold: "submit_loop call t r = submit_loop call ?t' ?r'"
    using lt by (subst submit_loop.simps) (simp add: c on_outcome_retry [OF rt lt])
  have a: "failing_run call (t_formData ?t') (t_idempotencyKey ?t') (r_world ?r') n"
    using rest by (simp add: after_backoff_def)
  have b: "t_retryCount ?t' + n \<le> MAX_RETRIES"
    using Suc.prems(2) by (simp add: after_backoff_def)
  have e: "fst (call (t_formData ?t') (t_idempotencyKey ?t')
             (world_after call (t_formData ?t') (t_idempotencyKey ?t') (r_world ?r') n))
           = Resolved response"
    using Suc.prems(3) by (simp add: after_backoff_def c)
  from Suc.IH [OF a b e Suc.prems(4,5)]
  show ?case
    unfolding unfold by (simp add: after_backoff_def c)
qed

lemma mock_endpoint_eq:
  "mock_endpoint fd key (st, envs) =
     (Resolved (fst (submitToMockApi st fd key empty_config (envs 0))),
      (fst (snd (submitToMockApi st fd key empty_config (envs 0))), \<lambda>i. envs (Suc i)))"
  by (simp add: mock_endpoint_def split: prod.splits)

lemma mock_failures:
  "\<forall>j<n. \<not> success (fst (submitToMockApi st fd key empty_config (envs j))) \<Longrightarrow>
     failing_run mock_endpoint fd key (st, envs) n
     \<and> world_after mock_endpoint fd key (st, envs) n = (st, \<lambda>i. envs (i + n))"
proof (induction n arbitrary: envs)
  case 0
  then show ?case by simp
next
  case (Suc n)
  obtain response st' waited
    where c: "submitToMockApi st fd key empty_config (envs 0) = (response, st', waited)"
    by (cases "submitToMockApi st fd key empty_config (envs 0)")
  from Suc.prems c have f: "\<not> success response" by auto
  with c have st: "st' = st" by (rule call_failure_keeps_store)
  have "\<forall>j<n. \<not> success (fst (submitToMockApi st fd key empty_config (envs (Suc j))))"
    using Suc.prems by auto
  from Suc.IH [of "\<lambda>i. envs (Suc i)", OF this] f st c
  show ?case by (simp add: mock_endpoint_eq retryable_def)
qed

lemma mock_failing_run_store:
  "failing_run mock_endpoint fd key (st, envs) n \<Longrightarrow>
     fst (world_after mock_endpoint fd key (st, envs) n) = st"
proof (induction n arbitrary: envs)
  case 0
  then show ?case by simp
next
  case (Suc n)
  obtain response st' waited
    where c: "submitToMockApi st fd key empty_config (envs 0) = (response, st', waited)"
    by (cases "submitToMockApi st fd key empty_config (envs 0)")
  from Suc.prems c have r: "(if success response then data response else None) = None"
    and rest: "failing_run mock_endpoint fd key (st', \<lambda>i. envs (Suc i)) n"
    by (simp_all add: mock_endpoint_eq retryable_def)
  have "\<not> success response"
  proof
    assume "success response"
    with c r call_success_record [OF c] show False by auto
  qed
  with c have st: "st' = st" by (rule call_failure_keeps_store)
  from rest have "fst (world_after mock_endpoint fd key (st, \<lambda>i. envs (Suc i)) n) = st"
    unfolding st by (rule Suc.IH)
  with st c show ?case by (simp add: mock_endpoint_eq)
qed

lemma mock_failing_world:
  "failing_run mock_endpoint fd key (st, envs) n \<Longrightarrow>
     world_after mock_endpoint fd key (st, envs) n = (st, \<lambda>i. envs (i + n))"
proof (induction n arbitrary: envs)
  case 0
  then show ?case by simp
next
  case (Suc n)
  obtain response st' waited
    where c: "submitToMockApi st fd key empty_config (envs 0) = (response, st', waited)"
    by (cases "submitToMockApi st fd key empty_config (envs 0)")
  from Suc.prems c have r: "(if success response then data response else None) = None"
    and rest: "failing_run mock_endpoint fd key (st', \<lambda>i. envs (Suc i)) n"
    by (simp_all add: mock_endpoint_eq retryable_def)
  have "\<not> success response"
  proof
    assume "success response"
    with c r call_success_record [OF c] show False by auto
  qed
  with c have st: "st' = st" by (rule call_failure_keeps_store)
  from rest have "world_after mock_endpoint fd key (st, \<lambda>i. envs (Suc i)) n
                  = (st, \<lambda>i. envs (Suc (i + n)))"
    unfolding st by (rule Suc.IH)
  with st c show ?case by (simp add: mock_endpoint_eq)
qed

lemma click_key: "generateIdempotencyKey (email req50) (submit_now click) = key50"
  by (simp add: generateIdempotencyKey_def req50_def click_def key50_def
        show_int_def show_nat.simps digit_char_def)

lemma idle_accepts: "submissionInProgressRef (hook_init :: nat hook_state) \<noteq> Some (currentKey show_nat req50)"
  by (simp add: hook_init_def)

lemma low_stream_fails: "failing_run mock_endpoint req50 key50 (Map.empty, always_low) n"
proof -
  have "\<forall>j<n. \<not> success (fst (submitToMockApi (Map.empty :: nat store) req50 key50 empty_config (always_low j)))"
    by (simp add: always_low_def low_call_alone)
  from mock_failures [OF this] show ?thesis by simp
qed

lemma low_low_fails: "failing_run mock_endpoint req50 key50 (Map.empty, low_low_slow) 2"
proof -
  have "\<forall>j<2. \<not> success (fst (submitToMockApi (Map.empty :: nat store) req50 key50 empty_config (low_low_slow j)))"
    by (simp add: low_low_slow_def low_call_alone)
  from mock_failures [OF this] show ?thesis by simp
qed

lemma third_call_slow:
  "mock_endpoint req50 key50 (world_after mock_endpoint req50 key50 (Map.empty, low_low_slow) 2)
     = (Resolved \<lparr>success = True, data = Some stored50, error = None\<rparr>,
        ([key50 \<mapsto> stored50], \<lambda>i. low_low_slow (Suc (i + 2))))"
  unfolding mock_failing_world [OF low_low_fails]
  by (simp add: mock_endpoint_eq low_low_slow_def slow_call_alone)

lemma fourth_call_low:
  "fst (mock_endpoint req50 key50 (world_after mock_endpoint req50 key50 (Map.empty, always_low) n))
     = Resolved \<lparr>success = False, data = None, error = Some ''Service temporarily unavailable''\<rparr>"
  unfolding mock_failing_world [OF low_stream_fails]
  by (simp add: mock_endpoint_eq always_low_def low_call_alone)

text \<open>
  Claim C7. Take a call of \<^verbatim>\<open>submit\<close> that is let in, against the mock service. If the
  first \<open>k\<close> calls of the endpoint end in failures and the next one, on attempt
  \<open>k \<le> MAX_RETRIES\<close>, in a success with record \<open>d\<close>, then the final submission shown is
  \<open>d\<close> with status \<^verbatim>\<open>"success"\<close> and \<^verbatim>\<open>retryCount = k\<close>; it is put in front of the list
  of submissions; the in-progress reference is cleared; the endpoint has been called
  \<open>k + 1\<close> times; and the store is the initial store with \<open>d\<close> under the key, so exactly
  one record exists for that key.
\<close>

theorem success_on_attempt_k:
  assumes acc: "submissionInProgressRef h \<noteq> Some (currentKey toStr fd)"
    and k: "k \<le> MAX_RETRIES"
    and key: "key = generateIdempotencyKey (email fd) (submit_now env)"
    and fails: "failing_run mock_endpoint fd key (st, envs) k"
    and succ: "\<not> retryable (fst (mock_endpoint fd key
                  (world_after mock_endpoint fd key (st, envs) k)))"
  shows "\<exists>response d.
       fst (mock_endpoint fd key (world_after mock_endpoint fd key (st, envs) k)) = Resolved response
     \<and> data response = Some d
     \<and> currentSubmission (r_hook (submit toStr mock_endpoint fd env h (st, envs)))
         = Some (d\<lparr>retryCount := k, status := Success\<rparr>)
     \<and> submissions (r_hook (submit toStr mock_endpoint fd env h (st, envs)))
         = d\<lparr>retryCount := k, status := Success\<rparr> # submissions h
     \<and> submissionInProgressRef (r_hook (submit toStr mock_endpoint fd env h (st, envs))) = None
     \<and> isSubmitting (r_hook (submit toStr mock_endpoint fd env h (st, envs))) = False
     \<and> r_calls (submit toStr mock_endpoint fd env h (st, envs)) = k + 1
     \<and> fst (r_world (submit toStr mock_endpoint fd env h (st, envs))) = st(key \<mapsto> d)
     \<and> (\<exists>!rec. fst (r_world (submit toStr mock_endpoint fd env h (st, envs))) key = Some rec)"
proof -
  from not_retryable [OF succ] obtain response d
    where res: "fst (mock_endpoint fd key (world_after mock_endpoint fd key (st, envs) k))
                  = Resolved response"
      and s: "success response" and d: "data response = Some d" by blast
  from mock_failing_world [OF fails]
  have wa: "world_after mock_endpoint fd key (st, envs) k = (st, \<lambda>i. envs (i + k))" .
  obtain response' st' waited
    where c: "submitToMockApi st fd key empty_config (envs k) = (response', st', waited)"
    by (cases "submitToMockApi st fd key empty_config (envs k)")
  from res wa c have rr: "response' = response" by (simp add: mock_endpoint_eq)
  from call_success_record [OF c] s d rr have st': "st' = st(key \<mapsto> d)" by auto
  from submit_accepted [OF acc, of env] obtain h' t
    where b: "submit_begin toStr fd env h = InFlight h' t"
      and h': "h' = h\<lparr>isSubmitting := True, error_state := None,
              submissionInProgressRef := Some (currentKey toStr fd),
              currentSubmission := Some (t_pendingSubmission t)\<rparr>"
      and tf: "t_formData t = fd" and tk: "t_idempotencyKey t = key" and t0: "t_retryCount t = 0"
    using key by blast
  let ?r = "\<lparr>r_hook = h', r_world = (st, envs), r_calls = 0,
             r_snapshots = [currentSubmission h'], r_waited = 0\<rparr>"
  have a1: "failing_run mock_endpoint (t_formData t) (t_idempotencyKey t) (r_world ?r) k"
    using fails tf tk by simp
  have a2: "t_retryCount t + k \<le> MAX_RETRIES" using k t0 by simp
  have a3: "fst (mock_endpoint (t_formData t) (t_idempotencyKey t)
            (world_after mock_endpoint (t_formData t) (t_idempotencyKey t) (r_world ?r) k))
          = Resolved response"
    using tf tk res by simp
  have wS: "fst (world_after mock_endpoint fd key (st, envs) (Suc k)) = st'"
    unfolding world_after_Suc wa using c by (simp add: mock_endpoint_eq)
  from loop_succeeds_after [OF a1 a2 a3 s d]
  have L: "r_hook (submit_loop mock_endpoint t ?r) =
           h'\<lparr>submissions := d\<lparr>retryCount := k, status := Success\<rparr> # submissions h',
              currentSubmission := Some (d\<lparr>retryCount := k, status := Success\<rparr>),
              submissionInProgressRef := None, isSubmitting := False\<rparr>"
    and W: "fst (r_world (submit_loop mock_endpoint t ?r)) = st'"
    and C: "r_calls (submit_loop mock_endpoint t ?r) = Suc k"
    using t0 tf tk wS by simp_all
  have S: "submit toStr mock_endpoint fd env h (st, envs) = submit_loop mock_endpoint t ?r"
    using b by (simp add: submit_def)
  show ?thesis
    unfolding S using res d L W C st' h' by simp
qed

text \<open>
  The scenario of two failures and a delayed success on attempt 2.
\<close>

theorem success_on_attempt_k_witness:
  "submissionInProgressRef (hook_init :: nat hook_state) \<noteq> Some (currentKey show_nat req50)
   \<and> 2 \<le> MAX_RETRIES
   \<and> key50 = generateIdempotencyKey (email req50) (submit_now click)
   \<and> failing_run mock_endpoint req50 key50 (Map.empty, low_low_slow) 2
   \<and> \<not> retryable (fst (mock_endpoint req50 key50
          (world_after mock_endpoint req50 key50 (Map.empty, low_low_slow) 2)))
   \<and> currentSubmission (r_hook (submit show_nat mock_endpoint req50 click hook_init
          (Map.empty, low_low_slow)))
       = Some (stored50\<lparr>retryCount := 2, status := Success\<rparr>)
   \<and> r_calls (submit show_nat mock_endpoint req50 click hook_init (Map.empty, low_low_slow)) = 3
   \<and> fst (r_world (submit show_nat mock_endpoint req50 click hook_init (Map.empty, low_low_slow)))
       = [key50 \<mapsto> stored50]"
proof -
  have k: "2 \<le> MAX_RETRIES" by (simp add: MAX_RETRIES_def)
  have key: "key50 = generateIdempotencyKey (email req50) (submit_now click)"
    by (simp add: click_key)
  have succ: "\<not> retryable (fst (mock_endpoint req50 key50
          (world_after mock_endpoint req50 key50 (Map.empty, low_low_slow) 2)))"
    unfolding third_call_slow by (simp add: retryable_def)
  from success_on_attempt_k [OF idle_accepts k key low_low_fails succ]
  have "currentSubmission (r_hook (submit show_nat mock_endpoint req50 click hook_init
          (Map.empty, low_low_slow)))
       = Some (stored50\<lparr>retryCount := 2, status := Success\<rparr>)
   \<and> r_calls (submit show_nat mock_endpoint req50 click hook_init (Map.empty, low_low_slow)) = 3
   \<and> fst (r_world (submit show_nat mock_endpoint req50 click hook_init (Map.empty, low_low_slow)))
       = [key50 \<mapsto> stored50]"
    unfolding third_call_slow by auto
  with idle_accepts k key low_low_fails succ show ?thesis by (intro conjI) simp_all
qed

subsection \<open>Retries exhausted\<close>

lemma loop_exhausted:
  assumes "failing_run call (t_formData t) (t_idempotencyKey t) (r_world r) (Suc m)"
    and "t_retryCount t + m = MAX_RETRIES"
  shows "r_hook (submit_loop call t r) =
           (r_hook r)
             \<lparr>currentSubmission :=
                Some ((t_pendingSubmission t)
                        \<lparr>status := Error, retryCount := MAX_RETRIES,
                         errorMessage :=
                           Some (failure_word (fst (call (t_formData t) (t_idempotencyKey t)
                                   (world_after call (t_formData t) (t_idempotencyKey t) (r_world r) m)))
                                 @ '' after '' @ show_nat MAX_RETRIES @ '' retries: ''
                                 @ failure_detail (fst (call (t_formData t) (t_idempotencyKey t)
                                   (world_after call (t_formData t) (t_idempotencyKey t) (r_world r) m))))\<rparr>),
              error_state :=
                Some (''Submission failed: ''
                      @ failure_detail (fst (call (t_formData t) (t_idempotencyKey t)
                          (world_after call (t_formData t) (t_idempotencyKey t) (r_world r) m)))),
              submissionInProgressRef := None, isSubmitting := False\<rparr>
         \<and> r_world (submit_loop call t r) =
             world_after call (t_formData t) (t_idempotencyKey t) (r_world r) (Suc m)
         \<and> r_calls (submit_loop call t r) = r_calls r + Suc m"
  using assms
proof (induction m arbitrary: t r)
  case 0
  obtain res w' where c: "call (t_formData t) (t_idempotencyKey t) (r_world r) = (res, w')"
    by (cases "call (t_formData t) (t_idempotencyKey t) (r_world r)")
  from 0 c have rt: "retryable res" and full: "\<not> t_retryCount t < MAX_RETRIES"
    and le: "t_retryCount t \<le> MAX_RETRIES" and eq: "t_retryCount t = MAX_RETRIES"
    by simp_all
  show ?case
    by (subst (1 2 3) submit_loop.simps)
       (simp add: c le eq on_outcome_exhausted [OF rt full])
next
  case (Suc m)
  obtain res w' where c: "call (t_formData t) (t_idempotencyKey t) (r_world r) = (res, w')"
    by (cases "call (t_formData t) (t_idempotencyKey t) (r_world r)")
  from Suc.prems c have rt: "retryable res" and lt: "t_retryCount t < MAX_RETRIES"
    and rest: "failing_run call (t_formData t) (t_idempotencyKey t) w' (Suc m)"
    by simp_all
  let ?t' = "after_backoff (t\<lparr>t_lastError := Some (failure_detail res)\<rparr>)"
  let ?r' = "r\<lparr>r_hook := (r_hook r)\<lparr>currentSubmission :=
            Some ((t_pendingSubmission t)
                    \<lparr>status := Retry, retryCount := t_retryCount t + 1,
                     errorMessage :=
                       Some (failure_word res @ '': '' @ failure_detail res @ ''. Retrying...'')\<rparr>)\<rparr>,
               r_world := w', r_calls := r_calls r + 1,
               r_snapshots := r_snapshots r @ [Some ((t_pendingSubmission t)
                    \<lparr>status := Retry, retryCount := t_retryCount t + 1,
                     errorMessage :=
                       Some (failure_word res @ '': '' @ failure_detail res @ ''. Retrying...'')\<rparr>)],
               r_waited := r_waited r + RETRY_DELAY\<rparr>"
  have unfold: "submit_loop call t r = submit_loop call ?t' ?r'"
    using lt by (subst submit_loop.simps) (simp add: c on_outcome_retry [OF rt lt])
  have "failing_run call (t_formData ?t') (t_idempotencyKey ?t') (r_world ?r') (Suc m)"
    using rest by (simp add: after_backoff_def)
  moreover have "t_retryCount ?t' + m = MAX_RETRIES"
    using Suc.prems(2) by (simp add: after_backoff_def)
  ultimately have IH: "r_hook (submit_loop call ?t' ?r') =
           (r_hook ?r')
             \<lparr>currentSubmission :=
                Some ((t_pendingSubmission ?t')
                        \<lparr>status := Error, retryCount := MAX_RETRIES,
                         errorMessage :=
                           Some (failure_word (fst (call (t_formData ?t') (t_idempotencyKey ?t')
                                   (world_after call (t_formData ?t') (t_idempotencyKey ?t') (r_world ?r') m)))
                                 @ '' after '' @ show_nat MAX_RETRIES @ '' retries: ''
                                 @ failure_detail (fst (call (t_formData ?t') (t_idempotencyKey ?t')
                                   (world_after call (t_formData ?t') (t_idempotencyKey ?t') (r_world ?r') m))))\<rparr>),
              error_state :=
                Some (''Submission failed: ''
                      @ failure_detail (fst (call (t_formData ?t') (t_idempotencyKey ?t')
                          (world_after call (t_formData ?t') (t_idempotencyKey ?t') (r_world ?r') m)))),
              submissionInProgressRef := None, isSubmitting := False\<rparr>
         \<and> r_world (submit_loop call ?t' ?r') =
             world_after call (t_formData ?t') (t_idempotencyKey ?t') (r_world ?r') (Suc m)
         \<and> r_calls (submit_loop call ?t' ?r') = r_calls ?r' + Suc m"
    by (rule Suc.IH)
  show ?case
    unfolding unfold using IH by (simp add: after_backoff_def c)
qed

lemma exhausted_generic:
  assumes acc: "submissionInProgressRef h \<noteq> Some (currentKey toStr fd)"
    and fr: "failing_run c fd (generateIdempotencyKey (email fd) (submit_now env)) x (Suc MAX_RETRIES)"
  shows "currentSubmission (r_hook (submit toStr c fd env h x)) =
        Some \<lparr>email = email fd, amount = amount fd,
              id_str = show_int (submit_now env) @ ''-'' @ submit_suffix env,
              timestamp = submit_now env, status = Error, retryCount = MAX_RETRIES,
              errorMessage =
                Some (failure_word (fst (c fd (generateIdempotencyKey (email fd) (submit_now env))
                        (world_after c fd (generateIdempotencyKey (email fd) (submit_now env)) x MAX_RETRIES)))
                      @ '' after 3 retries: ''
                      @ failure_detail (fst (c fd (generateIdempotencyKey (email fd) (submit_now env))
                        (world_after c fd (generateIdempotencyKey (email fd) (submit_now env)) x MAX_RETRIES))))\<rparr>
      \<and> error_state (r_hook (submit toStr c fd env h x)) =
          Some (''Submission failed: ''
                @ failure_detail (fst (c fd (generateIdempotencyKey (email fd) (submit_now env))
                    (world_after c fd (generateIdempotencyKey (email fd) (submit_now env)) x MAX_RETRIES))))
      \<and> submissionInProgressRef (r_hook (submit toStr c fd env h x)) = None
      \<and> isSubmitting (r_hook (submit toStr c fd env h x)) = False
      \<and> submissions (r_hook (submit toStr c fd env h x)) = submissions h
      \<and> r_calls (submit toStr c fd env h x) = MAX_RETRIES + 1
      \<and> r_world (submit toStr c fd env h x) =
          world_after c fd (generateIdempotencyKey (email fd) (submit_now env)) x (Suc MAX_RETRIES)"
proof -
  from submit_accepted [OF acc, of env] obtain h' t
    where b: "submit_begin toStr fd env h = InFlight h' t"
      and h': "h' = h\<lparr>isSubmitting := True, error_state := None,
              submissionInProgressRef := Some (currentKey toStr fd),
              currentSubmission := Some (t_pendingSubmission t)\<rparr>"
      and tf: "t_formData t = fd"
      and tk: "t_idempotencyKey t = generateIdempotencyKey (email fd) (submit_now env)"
      and tp: "t_pendingSubmission t =
         \<lparr>email = email fd, amount = amount fd,
          id_str = show_int (submit_now env) @ ''-'' @ submit_suffix env,
          timestamp = submit_now env, status = Pending, retryCount = 0, errorMessage = None\<rparr>"
      and t0: "t_retryCount t = 0"
    by blast
  let ?r = "\<lparr>r_hook = h', r_world = x, r_calls = 0,
             r_snapshots = [currentSubmission h'], r_waited = 0\<rparr>"
  have a1: "failing_run c (t_formData t) (t_idempotencyKey t) (r_world ?r) (Suc MAX_RETRIES)"
    using fr tf tk by simp
  have a2: "t_retryCount t + MAX_RETRIES = MAX_RETRIES" using t0 by simp
  have S: "submit toStr c fd env h x = submit_loop c t ?r"
    using b by (simp add: submit_def)
  from loop_exhausted [OF a1 a2] show ?thesis
    unfolding S by (simp add: tf tk tp h' show_budget)
qed

lemma exhausted_mock_store:
  assumes acc: "submissionInProgressRef h \<noteq> Some (currentKey toStr fd)"
    and fr: "failing_run mock_endpoint fd (generateIdempotencyKey (email fd) (submit_now env))
                 (st, envs) (Suc MAX_RETRIES)"
  shows "fst (r_world (submit toStr mock_endpoint fd env h (st, envs))) = st"
  using exhausted_generic [OF acc fr] mock_failing_run_store [OF fr] by simp

text \<open>
  Claim C8. Take a call of \<^verbatim>\<open>submit\<close> that is let in. If the endpoint ends in a
  retryable failure (an error response or a thrown fault) on each of the
  \<^verbatim>\<open>MAX_RETRIES + 1\<close> attempts, the final submission shown is the pending submission with
  status \<^verbatim>\<open>"error"\<close>, \<^verbatim>\<open>retryCount = MAX_RETRIES\<close> and the message
  \<^verbatim>\<open>Failed after 3 retries: \<close> (or \<^verbatim>\<open>Error after 3 retries: \<close> for a thrown fault)
  followed by the detail of the last failure; the hook's error is
  \<^verbatim>\<open>Submission failed: \<close> followed by that detail; the in-progress reference is cleared;
  no submission is added to the list. Against the mock service the store after the call
  is the store before it: no record is committed.
\<close>

theorem retries_exhausted:
  "(submissionInProgressRef h \<noteq> Some (currentKey toStr fd) \<longrightarrow>
    failing_run call fd (generateIdempotencyKey (email fd) (submit_now env)) w (Suc MAX_RETRIES) \<longrightarrow>
      currentSubmission (r_hook (submit toStr call fd env h w)) =
        Some \<lparr>email = email fd, amount = amount fd,
              id_str = show_int (submit_now env) @ ''-'' @ submit_suffix env,
              timestamp = submit_now env, status = Error, retryCount = MAX_RETRIES,
              errorMessage =
                Some (failure_word (fst (call fd (generateIdempotencyKey (email fd) (submit_now env))
                        (world_after call fd (generateIdempotencyKey (email fd) (submit_now env)) w MAX_RETRIES)))
                      @ '' after 3 retries: ''
                      @ failure_detail (fst (call fd (generateIdempotencyKey (email fd) (submit_now env))
                        (world_after call fd (generateIdempotencyKey (email fd) (submit_now env)) w MAX_RETRIES))))\<rparr>
      \<and> error_state (r_hook (submit toStr call fd env h w)) =
          Some (''Submission failed: ''
                @ failure_detail (fst (call fd (generateIdempotencyKey (email fd) (submit_now env))
                    (world_after call fd (generateIdempotencyKey (email fd) (submit_now env)) w MAX_RETRIES))))
      \<and> submissionInProgressRef (r_hook (submit toStr call fd env h w)) = None
      \<and> isSubmitting (r_hook (submit toStr call fd env h w)) = False
      \<and> submissions (r_hook (submit toStr call fd env h w)) = submissions h
      \<and> r_calls (submit toStr call fd env h w) = MAX_RETRIES + 1
      \<and> r_world (submit toStr call fd env h w) =
          world_after call fd (generateIdempotencyKey (email fd) (submit_now env)) w (Suc MAX_RETRIES))
   \<and> (submissionInProgressRef h \<noteq> Some (currentKey toStr fd) \<longrightarrow>
      failing_run mock_endpoint fd (generateIdempotencyKey (email fd) (submit_now env)) (st, envs)
        (Suc MAX_RETRIES) \<longrightarrow>
      fst (r_world (submit toStr mock_endpoint fd env h (st, envs))) = st)"
  apply (rule conjI)
   apply (intro impI)
   apply (erule (1) exhausted_generic)
  apply (intro impI)
  apply (erule (1) exhausted_mock_store)
  done

theorem retries_exhausted_witness:
  "submissionInProgressRef (hook_init :: nat hook_state) \<noteq> Some (currentKey show_nat req50)
   \<and> failing_run mock_endpoint req50 (generateIdempotencyKey (email req50) (submit_now click))
        (Map.empty, always_low) (Suc MAX_RETRIES)
   \<and> currentSubmission (r_hook (submit show_nat mock_endpoint req50 click hook_init
          (Map.empty, always_low)))
       = Some \<lparr>email = ''a@x.com'', amount = 50, id_str = ''1700000000123-p0o9i8u7y'',
               timestamp = 1700000000123, status = Error, retryCount = 3,
               errorMessage = Some ''Failed after 3 retries: Service temporarily unavailable''\<rparr>
   \<and> error_state (r_hook (submit show_nat mock_endpoint req50 click hook_init
          (Map.empty, always_low)))
       = Some ''Submission failed: Service temporarily unavailable''
   \<and> submissionInProgressRef (r_hook (submit show_nat mock_endpoint req50 click hook_init
          (Map.empty, always_low))) = None
   \<and> r_calls (submit show_nat mock_endpoint req50 click hook_init (Map.empty, always_low)) = 4
   \<and> fst (r_world (submit show_nat mock_endpoint req50 click hook_init (Map.empty, always_low)))
       = Map.empty"
proof -
  have fr: "failing_run mock_endpoint req50 (generateIdempotencyKey (email req50) (submit_now click))
        (Map.empty, always_low) (Suc MAX_RETRIES)"
    unfolding click_key by (rule low_stream_fails)
  note T = retries_exhausted [where h = "hook_init :: nat hook_state" and toStr = show_nat
      and fd = req50 and env = click and call = mock_endpoint and w = "(Map.empty, always_low)"
      and st = Map.empty and envs = always_low]
  from T idle_accepts fr
  have G: "currentSubmission (r_hook (submit show_nat mock_endpoint req50 click hook_init
          (Map.empty, always_low)))
       = Some \<lparr>email = email req50, amount = amount req50,
              id_str = show_int (submit_now click) @ ''-'' @ submit_suffix click,
              timestamp = submit_now click, status = Error, retryCount = MAX_RETRIES,
              errorMessage =
                Some (failure_word (fst (mock_endpoint req50 key50
                        (world_after mock_endpoint req50 key50 (Map.empty, always_low) MAX_RETRIES)))
                      @ '' after 3 retries: ''
                      @ failure_detail (fst (mock_endpoint req50 key50
                        (world_after mock_endpoint req50 key50 (Map.empty, always_low) MAX_RETRIES))))\<rparr>
      \<and> error_state (r_hook (submit show_nat mock_endpoint req50 click hook_init
          (Map.empty, always_low))) =
          Some (''Submission failed: ''
                @ failure_detail (fst (mock_endpoint req50 key50
                    (world_after mock_endpoint req50 key50 (Map.empty, always_low) MAX_RETRIES))))
      \<and> submissionInProgressRef (r_hook (submit show_nat mock_endpoint req50 click hook_init
          (Map.empty, always_low))) = None
      \<and> r_calls (submit show_nat mock_endpoint req50 click hook_init (Map.empty, always_low))
          = MAX_RETRIES + 1"
    unfolding click_key by blast
  from T idle_accepts fr
  have M: "fst (r_world (submit show_nat mock_endpoint req50 click hook_init (Map.empty, always_low)))
       = Map.empty"
    by blast
  from G have G': "currentSubmission (r_hook (submit show_nat mock_endpoint req50 click hook_init
          (Map.empty, always_low)))
       = Some \<lparr>email = ''a@x.com'', amount = 50, id_str = ''1700000000123-p0o9i8u7y'',
               timestamp = 1700000000123, status = Error, retryCount = 3,
               errorMessage = Some ''Failed after 3 retries: Service temporarily unavailable''\<rparr>
   \<and> error_state (r_hook (submit show_nat mock_endpoint req50 click hook_init
          (Map.empty, always_low)))
       = Some ''Submission failed: Service temporarily unavailable''
   \<and> submissionInProgressRef (r_hook (submit show_nat mock_endpoint req50 click hook_init
          (Map.empty, always_low))) = None
   \<and> r_calls (submit show_nat mock_endpoint req50 click hook_init (Map.empty, always_low)) = 4"
    unfolding fourth_call_low
    by (simp add: failure_word_def failure_detail_def req50_def click_def MAX_RETRIES_def
          show_int_def show_nat.simps digit_char_def)
  from idle_accepts fr G' M show ?thesis by (intro conjI) simp_all
qed

subsection \<open>A duplicate call while one is in progress\<close>

lemma after_first_click:
  "hook_step show_nat (Submit req50 click) system_init =
     \<lparr>hook = \<lparr>submissions = [], isSubmitting = True, error_state = None,
              currentSubmission =
                Some \<lparr>email = ''a@x.com'', amount = 50, id_str = ''1700000000123-p0o9i8u7y'',
                      timestamp = 1700000000123, status = Pending, retryCount = 0,
                      errorMessage = None\<rparr>,
              submissionInProgressRef = Some ''a@x.com:50''\<rparr>,
      in_flight =
        [(\<lparr>t_formData = req50, t_idempotencyKey = key50,
           t_pendingSubmission =
             \<lparr>email = ''a@x.com'', amount = 50, id_str = ''1700000000123-p0o9i8u7y'',
              timestamp = 1700000000123, status = Pending, retryCount = 0,
              errorMessage = None\<rparr>,
           t_retryCount = 0, t_lastError = None\<rparr>, AwaitingEndpoint)],
      endpoint_calls = 1\<rparr>"
  by (simp add: system_init_def hook_init_def submit_begin_def currentKey_def Let_def
        generateIdempotencyKey_def req50_def click_def MAX_RETRIES_def key50_def
        show_int_def show_nat.simps digit_char_def)

text \<open>
  Claim C9 says that every call of \<^verbatim>\<open>submit\<close> issued while a submission with the same
  identity and amount is in flight is rejected. The hook tracks the submission in
  progress in a single reference cell, which holds the token of the call let in last.
  After a call for \<open>a@x.com\<close> and amount 50 and then a call for \<open>b@x.com\<close> and amount
  10, both in flight, a second call for \<open>a@x.com\<close> and amount 50 is let in: three calls
  are in flight, the endpoint has been called three times, and no error is reported.
\<close>

theorem third_call_slips_through:
  "map (currentKey show_nat \<circ> t_formData \<circ> fst)
       (in_flight (hook_run show_nat [Submit req50 click, Submit other_req click] system_init))
     = [currentKey show_nat req50, currentKey show_nat other_req]
   \<and> map snd
       (in_flight (hook_run show_nat [Submit req50 click, Submit other_req click] system_init))
     = [AwaitingEndpoint, AwaitingEndpoint]
   \<and> length (in_flight
       (hook_run show_nat [Submit req50 click, Submit other_req click, Submit req50 click]
          system_init)) = 3
   \<and> endpoint_calls
       (hook_run show_nat [Submit req50 click, Submit other_req click, Submit req50 click]
          system_init) = 3
   \<and> error_state (hook
       (hook_run show_nat [Submit req50 click, Submit other_req click, Submit req50 click]
          system_init)) = None"
proof -
  have r50: "submissionInProgressRef (hook (hook_step show_nat (Submit req50 click) system_init))
       \<noteq> Some (currentKey show_nat other_req)"
    unfolding after_first_click
    by (simp add: currentKey_def other_req_def)
  define s1 where "s1 = hook_step show_nat (Submit req50 click) system_init"
  define s2 where "s2 = hook_step show_nat (Submit other_req click) s1"
  define s3 where "s3 = hook_step show_nat (Submit req50 click) s2"
  have f1: "map (currentKey show_nat \<circ> t_formData \<circ> fst) (in_flight s1) = [currentKey show_nat req50]"
    and c1: "endpoint_calls s1 = 1"
    and w1: "map snd (in_flight s1) = [AwaitingEndpoint]"
    unfolding s1_def after_first_click by simp_all
  have n2: "submissionInProgressRef (hook s1) \<noteq> Some (currentKey show_nat other_req)"
    using r50 by (simp add: s1_def)
  have f2: "map (currentKey show_nat \<circ> t_formData \<circ> fst) (in_flight s2)
              = [currentKey show_nat req50, currentKey show_nat other_req]"
    and c2: "endpoint_calls s2 = 2"
    and m2: "submissionInProgressRef (hook s2) = Some (currentKey show_nat other_req)"
    and w2: "map snd (in_flight s2) = [AwaitingEndpoint, AwaitingEndpoint]"
    using n2 f1 c1 w1 unfolding s2_def
    by (simp_all add: submit_begin_def Let_def MAX_RETRIES_def)
  have n3: "submissionInProgressRef (hook s2) \<noteq> Some (currentKey show_nat req50)"
    unfolding m2 by (simp add: currentKey_def other_req_def req50_def)
  have l3: "length (in_flight s3) = 3" and c3: "endpoint_calls s3 = 3"
    and e3: "error_state (hook s3) = None"
    using n3 f2 c2 unfolding s3_def
    by (simp_all add: submit_begin_def Let_def MAX_RETRIES_def)
      (metis length_map length_Cons list.size(3) numeral_2_eq_2)
  from f2 w2 l3 c3 e3 show ?thesis
    by (simp add: s1_def s2_def s3_def)
qed

lemma begin_ignores_error:
  "submit_begin toStr fd env (h\<lparr>error_state := x\<rparr>) = submit_begin toStr fd env h"
  by (simp add: submit_begin_def Let_def)

lemma outcome_ignores_error:
  "\<exists>y. on_outcome t res (h\<lparr>error_state := x\<rparr>) =
     (case on_outcome t res h of
        Finished h' \<Rightarrow> Finished (h'\<lparr>error_state := y\<rparr>)
      | Backoff h' t' \<Rightarrow> Backoff (h'\<lparr>error_state := x\<rparr>) t')"
proof (cases "retryable res")
  case False
  from not_retryable [OF False] obtain response d
    where r: "res = Resolved response" "success response" "data response = Some d" by blast
  show ?thesis
    unfolding r(1) on_outcome_success [OF r(2,3)]
    by (rule exI [of _ x]) simp
next
  case True
  show ?thesis
  proof (cases "t_retryCount t < MAX_RETRIES")
    case lt: True
    show ?thesis
      unfolding on_outcome_retry [OF True lt] by simp
  next
    case False
    show ?thesis
      unfolding on_outcome_exhausted [OF True False]
      by (rule exI [of _ "Some (''Submission failed: '' @ failure_detail res)"]) simp
  qed
qed

lemma forget_twice: "forget_error (forget_error s) = forget_error s"
  by (simp add: forget_error_def)

lemma forget_fields:
  "hook (forget_error s) = (hook s)\<lparr>error_state := None\<rparr>"
  "in_flight (forget_error s) = in_flight s"
  "endpoint_calls (forget_error s) = endpoint_calls s"
  by (simp_all add: forget_error_def)

lemma forget_update:
  "forget_error (s\<lparr>hook := h\<rparr>) = s\<lparr>hook := h\<lparr>error_state := None\<rparr>\<rparr>"
  "forget_error (s\<lparr>in_flight := ts\<rparr>) = (forget_error s)\<lparr>in_flight := ts\<rparr>"
  "forget_error (s\<lparr>endpoint_calls := n\<rparr>) = (forget_error s)\<lparr>endpoint_calls := n\<rparr>"
  "(forget_error s)\<lparr>hook := h\<rparr> = s\<lparr>hook := h\<rparr>"
  by (simp_all add: forget_error_def)

lemma step_forget_submit:
  "forget_error (hook_step toStr (Submit fd env) (forget_error s))
     = forget_error (hook_step toStr (Submit fd env) s)"
proof (cases "submit_begin toStr fd env (hook s)")
  case (AlreadyInProgress h')
  then show ?thesis
    by (simp add: forget_fields begin_ignores_error forget_update forget_twice)
next
  case (InFlight h' t)
  then show ?thesis
    by (simp add: forget_fields begin_ignores_error forget_update forget_twice)
qed

lemma step_forget_settles:
  "forget_error (hook_step toStr (EndpointSettles i res) (forget_error s))
     = forget_error (hook_step toStr (EndpointSettles i res) s)"
proof (cases "i < length (in_flight s) \<and> snd (in_flight s ! i) = AwaitingEndpoint")
  case False
  then have "hook_step toStr (EndpointSettles i res) s = s"
    and "hook_step toStr (EndpointSettles i res) (forget_error s) = forget_error s"
    by (auto simp: forget_fields)
  then show ?thesis
    by (simp only: forget_twice)
next
  case True
  from outcome_ignores_error [where t = "fst (in_flight s ! i)" and res = res and h = "hook s" and x = None]
  obtain y where y: "on_outcome (fst (in_flight s ! i)) res ((hook s)\<lparr>error_state := None\<rparr>) =
     (case on_outcome (fst (in_flight s ! i)) res (hook s) of
        Finished h' \<Rightarrow> Finished (h'\<lparr>error_state := y\<rparr>)
      | Backoff h' t' \<Rightarrow> Backoff (h'\<lparr>error_state := None\<rparr>) t')" by blast
  show ?thesis
  proof (cases "on_outcome (fst (in_flight s ! i)) res (hook s)")
    case (Finished h')
    with True y show ?thesis
      by (simp add: forget_fields forget_update forget_twice)
  next
    case (Backoff h' t')
    with True y show ?thesis
      by (simp add: forget_fields forget_update forget_twice)
  qed
qed

lemma step_forget_elapses:
  "forget_error (hook_step toStr (RetryDelayElapses i) (forget_error s))
     = forget_error (hook_step toStr (RetryDelayElapses i) s)"
  by (simp add: forget_fields Let_def forget_update forget_twice)

lemma step_forget:
  "forget_error (hook_step toStr e (forget_error s)) = forget_error (hook_step toStr e s)"
  by (cases e) (simp_all only: step_forget_submit step_forget_settles step_forget_elapses)

lemma run_forget:
  "forget_error s = forget_error s' \<Longrightarrow>
     forget_error (hook_run toStr es s) = forget_error (hook_run toStr es s')"
proof (induction es arbitrary: s s')
  case Nil
  then show ?case by simp
next
  case (Cons e es)
  have "forget_error (hook_step toStr e s) = forget_error (hook_step toStr e (forget_error s))"
    by (rule step_forget [symmetric])
  also have "\<dots> = forget_error (hook_step toStr e (forget_error s'))"
    by (simp only: Cons.prems)
  also have "\<dots> = forget_error (hook_step toStr e s')"
    by (rule step_forget)
  finally have "forget_error (hook_run toStr es (hook_step toStr e s))
                = forget_error (hook_run toStr es (hook_step toStr e s'))"
    by (rule Cons.IH)
  then show ?case by simp
qed

lemma rejected_when_marked:
  assumes "submissionInProgressRef (hook s) = Some (currentKey toStr fd)"
  shows "hook_step toStr (Submit fd env) s =
           s\<lparr>hook := (hook s)\<lparr>error_state := Some ''Request already in progress. Please wait.''\<rparr>\<rparr>
         \<and> submit toStr call fd env (hook s) w =
             \<lparr>r_hook = (hook s)\<lparr>error_state := Some ''Request already in progress. Please wait.''\<rparr>,
              r_world = w, r_calls = 0, r_snapshots = [], r_waited = 0\<rparr>
         \<and> forget_error (hook_run toStr es (hook_step toStr (Submit fd env) s))
             = forget_error (hook_run toStr es s)"
proof -
  have st: "hook_step toStr (Submit fd env) s =
           s\<lparr>hook := (hook s)\<lparr>error_state := Some ''Request already in progress. Please wait.''\<rparr>\<rparr>"
    using assms by (simp add: submit_begin_def)
  have "forget_error (hook_step toStr (Submit fd env) s) = forget_error s"
    unfolding st by (simp add: forget_error_def)
  then have run: "forget_error (hook_run toStr es (hook_step toStr (Submit fd env) s))
             = forget_error (hook_run toStr es s)"
    by (rule run_forget)
  have big: "submit toStr call fd env (hook s) w =
             \<lparr>r_hook = (hook s)\<lparr>error_state := Some ''Request already in progress. Please wait.''\<rparr>,
              r_world = w, r_calls = 0, r_snapshots = [], r_waited = 0\<rparr>"
    using assms by (simp add: submit_def submit_begin_def)
  from st big run show ?thesis by (intro conjI)
qed

text \<open>
  The reference is also lost when another call finishes: with a call for \<open>b@x.com\<close> in
  flight, a call for \<open>a@x.com\<close> and amount 50 is accepted; the call for \<open>b@x.com\<close> then
  succeeds and clears the reference; a second call for \<open>a@x.com\<close> and amount 50 is let
  in while the first is still in flight.
\<close>

lemma finish_of_another_lets_duplicate_in:
  "map (t_formData \<circ> fst)
       (in_flight (hook_run show_nat
          [Submit other_req click, Submit req50 click,
           EndpointSettles 0 (Resolved \<lparr>success = True, data = Some stored60, error = None\<rparr>),
           Submit req50 click] system_init))
     = [req50, req50]
   \<and> endpoint_calls (hook_run show_nat
          [Submit other_req click, Submit req50 click,
           EndpointSettles 0 (Resolved \<lparr>success = True, data = Some stored60, error = None\<rparr>),
           Submit req50 click] system_init) = 3"
  by (simp add: system_init_def hook_init_def submit_begin_def currentKey_def on_outcome_def
        Let_def generateIdempotencyKey_def req50_def other_req_def click_def MAX_RETRIES_def
        show_int_def show_nat.simps digit_char_def)

lemma backoff_keeps:
  "on_outcome t res h = Backoff h' t' \<Longrightarrow>
     submissionInProgressRef h' = submissionInProgressRef h \<and> t_formData t' = t_formData t"
  by (auto simp: on_outcome_def Let_def split: api_result.splits option.splits if_splits)

lemma rejected_keeps:
  "submit_begin toStr fd env h = AlreadyInProgress h' \<Longrightarrow>
     submissionInProgressRef h' = submissionInProgressRef h"
  by (auto simp: submit_begin_def Let_def split: if_splits)

lemma accepted_starts_at_zero:
  "submit_begin toStr fd env h = InFlight h' t \<Longrightarrow> t_retryCount t = 0"
  by (auto simp: submit_begin_def Let_def split: if_splits)

lemma requests_update:
  assumes "i < length ts" and "t_formData t' = t_formData (fst (ts ! i))"
  shows "map (t_formData \<circ> fst) (ts[i := (t', a)]) = map (t_formData \<circ> fst) ts"
proof -
  have "map (t_formData \<circ> fst) (ts[i := (t', a)])
        = (map (t_formData \<circ> fst) ts)[i := (t_formData \<circ> fst) (t', a)]"
    by (rule map_update)
  also have "\<dots> = (map (t_formData \<circ> fst) ts)[i := map (t_formData \<circ> fst) ts ! i]"
    using assms by simp
  also have "\<dots> = map (t_formData \<circ> fst) ts"
    by (rule list_update_id)
  finally show ?thesis .
qed

lemma removal_shortens:
  "i < length ts \<Longrightarrow> length (take i ts @ drop (Suc i) ts) \<noteq> length ts"
  by simp

lemma quiet_submit:
  assumes "length (in_flight (hook_step toStr (Submit fd env) s)) = length (in_flight s)"
  shows "submissionInProgressRef (hook (hook_step toStr (Submit fd env) s))
           = submissionInProgressRef (hook s)
         \<and> map (t_formData \<circ> fst) (in_flight (hook_step toStr (Submit fd env) s))
           = map (t_formData \<circ> fst) (in_flight s)"
proof (cases "submit_begin toStr fd env (hook s)")
  case (AlreadyInProgress h')
  from rejected_keeps [OF AlreadyInProgress] AlreadyInProgress show ?thesis by simp
next
  case (InFlight h' t)
  from accepted_starts_at_zero [OF InFlight] have "t_retryCount t \<le> MAX_RETRIES" by simp
  with InFlight assms show ?thesis by simp
qed

lemma quiet_settles:
  assumes "length (in_flight (hook_step toStr (EndpointSettles i res) s)) = length (in_flight s)"
  shows "submissionInProgressRef (hook (hook_step toStr (EndpointSettles i res) s))
           = submissionInProgressRef (hook s)
         \<and> map (t_formData \<circ> fst) (in_flight (hook_step toStr (EndpointSettles i res) s))
           = map (t_formData \<circ> fst) (in_flight s)"
proof (cases "i < length (in_flight s)")
  case False
  then show ?thesis by simp
next
  case i: True
  show ?thesis
  proof (cases "snd (in_flight s ! i) = AwaitingEndpoint")
    case False
    then show ?thesis by simp
  next
    case True
    show ?thesis
    proof (cases "on_outcome (fst (in_flight s ! i)) res (hook s)")
      case (Finished h')
      with i True assms removal_shortens [OF i] show ?thesis by simp
    next
      case (Backoff h' t')
      from backoff_keeps [OF Backoff]
      have r: "submissionInProgressRef h' = submissionInProgressRef (hook s)"
        and f: "t_formData t' = t_formData (fst (in_flight s ! i))" by simp_all
      from i True Backoff r requests_update [OF i f, of AwaitingRetryDelay]
      show ?thesis by simp
    qed
  qed
qed

lemma quiet_elapses:
  assumes "length (in_flight (hook_step toStr (RetryDelayElapses i) s)) = length (in_flight s)"
  shows "submissionInProgressRef (hook (hook_step toStr (RetryDelayElapses i) s))
           = submissionInProgressRef (hook s)
         \<and> map (t_formData \<circ> fst) (in_flight (hook_step toStr (RetryDelayElapses i) s))
           = map (t_formData \<circ> fst) (in_flight s)"
proof (cases "i < length (in_flight s)")
  case False
  then show ?thesis by simp
next
  case i: True
  show ?thesis
  proof (cases "snd (in_flight s ! i) = AwaitingRetryDelay")
    case False
    then show ?thesis by simp
  next
    case True
    have f: "t_formData (after_backoff (fst (in_flight s ! i))) = t_formData (fst (in_flight s ! i))"
      by (simp add: after_backoff_def)
    show ?thesis
    proof (cases "t_retryCount (after_backoff (fst (in_flight s ! i))) \<le> MAX_RETRIES")
      case le: True
      from i True le requests_update [OF i f, of AwaitingEndpoint]
      show ?thesis by (simp add: Let_def)
    next
      case False
      with i True assms removal_shortens [OF i] show ?thesis by (simp add: Let_def)
    qed
  qed
qed

lemma quiet_step:
  assumes "length (in_flight (hook_step toStr e s)) = length (in_flight s)"
  shows "submissionInProgressRef (hook (hook_step toStr e s)) = submissionInProgressRef (hook s)
         \<and> map (t_formData \<circ> fst) (in_flight (hook_step toStr e s))
           = map (t_formData \<circ> fst) (in_flight s)"
proof (cases e)
  case (Submit fd env)
  show ?thesis using assms unfolding Submit by (rule quiet_submit)
next
  case (EndpointSettles i res)
  show ?thesis using assms unfolding EndpointSettles by (rule quiet_settles)
next
  case (RetryDelayElapses i)
  show ?thesis using assms unfolding RetryDelayElapses by (rule quiet_elapses)
qed

lemma undisturbed_run:
  "undisturbed toStr es s \<Longrightarrow>
     submissionInProgressRef (hook (hook_run toStr es s)) = submissionInProgressRef (hook s)
     \<and> map (t_formData \<circ> fst) (in_flight (hook_run toStr es s))
       = map (t_formData \<circ> fst) (in_flight s)"
proof (induction es arbitrary: s)
  case Nil
  then show ?case by simp
next
  case (Cons e es)
  from Cons.prems have q: "length (in_flight (hook_step toStr e s)) = length (in_flight s)"
    and rest: "undisturbed toStr es (hook_step toStr e s)" by simp_all
  from quiet_step [OF q]
  have a: "submissionInProgressRef (hook (hook_step toStr e s)) = submissionInProgressRef (hook s)"
    and b: "map (t_formData \<circ> fst) (in_flight (hook_step toStr e s))
              = map (t_formData \<circ> fst) (in_flight s)"
    by (rule conjunct1, rule conjunct2)
  from Cons.IH [OF rest] show ?case
    unfolding hook_run.simps a b .
qed

lemma accepted_step:
  assumes "submissionInProgressRef (hook s) \<noteq> Some (currentKey toStr fd)"
  shows "submissionInProgressRef (hook (hook_step toStr (Submit fd env) s))
           = Some (currentKey toStr fd)
         \<and> map (t_formData \<circ> fst) (in_flight (hook_step toStr (Submit fd env) s))
           = map (t_formData \<circ> fst) (in_flight s) @ [fd]
         \<and> endpoint_calls (hook_step toStr (Submit fd env) s) = endpoint_calls s + 1"
proof -
  from submit_accepted [OF assms, of env] obtain h' t
    where b: "submit_begin toStr fd env (hook s) = InFlight h' t"
      and h': "h' = (hook s)\<lparr>isSubmitting := True, error_state := None,
              submissionInProgressRef := Some (currentKey toStr fd),
              currentSubmission := Some (t_pendingSubmission t)\<rparr>"
      and tf: "t_formData t = fd" and t0: "t_retryCount t = 0"
    by blast
  from b h' tf t0 show ?thesis by simp
qed

text \<open>
  Claim C9, amended. A call of \<^verbatim>\<open>submit\<close> is accepted; afterwards any events happen
  during which no call enters flight and none leaves it (duplicates are rejected,
  attempts fail and are retried, retry delays elapse), so that the accepted call is
  still in flight, in its first attempt or in any retry. A second call with the same
  identity and amount issued then fails at once with the message
  \<^verbatim>\<open>Request already in progress. Please wait.\<close>, calls the endpoint not at all, and
  changes nothing but the hook's error message: the calls in flight, their local state,
  the reference, the submission shown and the list of submissions are as they were. Any
  later sequence of events leads to the same system as without the rejected call, up to
  the hook's error message.
\<close>

theorem duplicate_rejected_while_in_flight:
  fixes toStr :: "'n \<Rightarrow> string" and fd :: "'n FormData" and s0 :: "'n hook_system"
    and env env' :: submit_env and es es' :: "'n hook_event list"
    and call :: "'n FormData \<Rightarrow> string \<Rightarrow> 'w \<Rightarrow> 'n api_result \<times> 'w" and w :: 'w
  defines "S \<equiv> hook_run toStr es (hook_step toStr (Submit fd env) s0)"
  assumes acc: "submissionInProgressRef (hook s0) \<noteq> Some (currentKey toStr fd)"
    and quiet: "undisturbed toStr es (hook_step toStr (Submit fd env) s0)"
  shows "map (t_formData \<circ> fst) (in_flight S) = map (t_formData \<circ> fst) (in_flight s0) @ [fd]
         \<and> hook_step toStr (Submit fd env') S =
             S\<lparr>hook := (hook S)\<lparr>error_state := Some ''Request already in progress. Please wait.''\<rparr>\<rparr>
         \<and> submit toStr call fd env' (hook S) w =
             \<lparr>r_hook = (hook S)\<lparr>error_state := Some ''Request already in progress. Please wait.''\<rparr>,
              r_world = w, r_calls = 0, r_snapshots = [], r_waited = 0\<rparr>
         \<and> forget_error (hook_run toStr es' (hook_step toStr (Submit fd env') S))
             = forget_error (hook_run toStr es' S)"
proof -
  from accepted_step [OF acc, of env] undisturbed_run [OF quiet]
  have marked: "submissionInProgressRef (hook S) = Some (currentKey toStr fd)"
    and flying: "map (t_formData \<circ> fst) (in_flight S) = map (t_formData \<circ> fst) (in_flight s0) @ [fd]"
    unfolding S_def by simp_all
  note R = rejected_when_marked [OF marked, of env' call w es']
  from R have r1: "hook_step toStr (Submit fd env') S =
             S\<lparr>hook := (hook S)\<lparr>error_state := Some ''Request already in progress. Please wait.''\<rparr>\<rparr>"
    by (rule conjunct1)
  from R have r2: "submit toStr call fd env' (hook S) w =
             \<lparr>r_hook = (hook S)\<lparr>error_state := Some ''Request already in progress. Please wait.''\<rparr>,
              r_world = w, r_calls = 0, r_snapshots = [], r_waited = 0\<rparr>"
    by (rule conjunct1 [OF conjunct2])
  from R have r3: "forget_error (hook_run toStr es' (hook_step toStr (Submit fd env') S))
             = forget_error (hook_run toStr es' S)"
    by (rule conjunct2 [OF conjunct2])
  from flying r1 r2 r3 show ?thesis by (intro conjI)
qed

lemma retry_phase_undisturbed:
  "undisturbed show_nat
     [Submit req50 click,
      EndpointSettles 0 (Resolved \<lparr>success = False, data = None,
                                   error = Some ''Service temporarily unavailable''\<rparr>),
      Submit req50 click,
      RetryDelayElapses 0]
     (hook_step show_nat (Submit req50 click) system_init)"
  unfolding after_first_click
  by (simp add: submit_begin_def currentKey_def on_outcome_def after_backoff_def Let_def
        req50_def MAX_RETRIES_def show_nat.simps digit_char_def)

text \<open>
  The first call for \<open>a@x.com\<close> and amount 50 is accepted, a duplicate is rejected, the
  first attempt fails, another duplicate is rejected during the retry delay, and the
  delay elapses: a duplicate issued during the second attempt is rejected too.
\<close>

theorem duplicate_rejected_while_in_flight_witness:
  "submissionInProgressRef (hook (system_init :: nat hook_system))
     \<noteq> Some (currentKey show_nat req50)
   \<and> undisturbed show_nat
       [Submit req50 click,
        EndpointSettles 0 (Resolved \<lparr>success = False, data = None,
                                     error = Some ''Service temporarily unavailable''\<rparr>),
        Submit req50 click,
        RetryDelayElapses 0]
       (hook_step show_nat (Submit req50 click) system_init)
   \<and> map (t_formData \<circ> fst) (in_flight (hook_run show_nat
       [Submit req50 click,
        EndpointSettles 0 (Resolved \<lparr>success = False, data = None,
                                     error = Some ''Service temporarily unavailable''\<rparr>),
        Submit req50 click,
        RetryDelayElapses 0]
       (hook_step show_nat (Submit req50 click) system_init))) = [req50]
   \<and> in_flight (hook_step show_nat (Submit req50 click) (hook_run show_nat
       [Submit req50 click,
        EndpointSettles 0 (Resolved \<lparr>success = False, data = None,
                                     error = Some ''Service temporarily unavailable''\<rparr>),
        Submit req50 click,
        RetryDelayElapses 0]
       (hook_step show_nat (Submit req50 click) system_init)))
     = in_flight (hook_run show_nat
       [Submit req50 click,
        EndpointSettles 0 (Resolved \<lparr>success = False, data = None,
                                     error = Some ''Service temporarily unavailable''\<rparr>),
        Submit req50 click,
        RetryDelayElapses 0]
       (hook_step show_nat (Submit req50 click) system_init))
   \<and> endpoint_calls (hook_step show_nat (Submit req50 click) (hook_run show_nat
       [Submit req50 click,
        EndpointSettles 0 (Resolved \<lparr>success = False, data = None,
                                     error = Some ''Service temporarily unavailable''\<rparr>),
        Submit req50 click,
        RetryDelayElapses 0]
       (hook_step show_nat (Submit req50 click) system_init)))
     = endpoint_calls (hook_run show_nat
       [Submit req50 click,
        EndpointSettles 0 (Resolved \<lparr>success = False, data = None,
                                     error = Some ''Service temporarily unavailable''\<rparr>),
        Submit req50 click,
        RetryDelayElapses 0]
       (hook_step show_nat (Submit req50 click) system_init))
   \<and> error_state (hook (hook_step show_nat (Submit req50 click) (hook_run show_nat
       [Submit req50 click,
        EndpointSettles 0 (Resolved \<lparr>success = False, data = None,
                                     error = Some ''Service temporarily unavailable''\<rparr>),
        Submit req50 click,
        RetryDelayElapses 0]
       (hook_step show_nat (Submit req50 click) system_init))))
     = Some ''Request already in progress. Please wait.''"
proof -
  define S where "S = hook_run show_nat
       [Submit req50 click,
        EndpointSettles 0 (Resolved \<lparr>success = False, data = None,
                                     error = Some ''Service temporarily unavailable''\<rparr>),
        Submit req50 click,
        RetryDelayElapses 0]
       (hook_step show_nat (Submit req50 click) system_init)"
  have acc: "submissionInProgressRef (hook (system_init :: nat hook_system))
     \<noteq> Some (currentKey show_nat req50)"
    by (simp add: system_init_def hook_init_def)
  note T = duplicate_rejected_while_in_flight [OF acc retry_phase_undisturbed,
      where env' = click and es' = "[]" and call = mock_endpoint and w = "(Map.empty, always_low)",
      folded S_def]
  from T have fl: "map (t_formData \<circ> fst) (in_flight S) = [req50]"
    by (simp add: system_init_def)
  from T have step: "hook_step show_nat (Submit req50 click) S =
      S\<lparr>hook := (hook S)\<lparr>error_state := Some ''Request already in progress. Please wait.''\<rparr>\<rparr>"
    by (rule conjunct1 [OF conjunct2])
  have a: "in_flight (hook_step show_nat (Submit req50 click) S) = in_flight S"
    and b: "endpoint_calls (hook_step show_nat (Submit req50 click) S) = endpoint_calls S"
    and c: "error_state (hook (hook_step show_nat (Submit req50 click) S))
              = Some ''Request already in progress. Please wait.''"
    unfolding step by simp_all
  from acc retry_phase_undisturbed fl a b c show ?thesis
    unfolding S_def by (intro conjI)
qed

end
